theory Spec2Isabelle
  imports Complex_Main "HOL-Library.Multiset" "HOL-Library.Char_ord" "HOL-Library.List_Lexorder"
begin

section \<open>Python values, exceptions and strings\<close>

text \<open>
  The three tools of \<^verbatim>\<open>expense_agent/agent.py\<close> (\<^verbatim>\<open>validate_expense_data\<close>,
  \<^verbatim>\<open>categorize_expense\<close>, \<^verbatim>\<open>generate_expense_summary\<close>) are embedded as HOL functions.
  The categorizer and the aggregator are called with \<^verbatim>\<open>tool_context=None\<close>, so their
  branches guarded by \<^verbatim>\<open>if tool_context and tool_context.state\<close> are never entered and
  are left out. The validator is embedded twice: as it runs with \<^verbatim>\<open>tool_context=None\<close>, the
  way the aggregator calls it, and with the tool context and the clock as explicit state.

  An amount, which the code converts with \<^verbatim>\<open>float()\<close> or compares with a number, may be
  any JSON scalar: \<open>PNone\<close> (null), a boolean, an integer, a float or a string. The
  other inputs have the types that the signatures and the data model give them. A Python
  \<^verbatim>\<open>float\<close> is a binary64 number; the model keeps its value as a rational and rounds the
  result of every arithmetic operation (section on floats). NaN, the infinities and the
  sign of zero are not represented. A Python \<^verbatim>\<open>str\<close> is a \<open>string\<close> whose characters are
  the code points below 256. An exception is a value of \<open>exn\<close> that carries its message,
  worded as CPython 3.12 words it.
\<close>

datatype pyval = PNone | PBool bool | PInt int | PFloat rat | PStr string

datatype exn =
    ValueError string
  | TypeError string
  | OverflowError string
  | AttributeError string

text \<open>\<^verbatim>\<open>str(e)\<close>: the message the exception was raised with.\<close>

fun str_exn :: "exn \<Rightarrow> string" where
  "str_exn (ValueError m) = m"
| "str_exn (TypeError m) = m"
| "str_exn (OverflowError m) = m"
| "str_exn (AttributeError m) = m"

text \<open>\<^verbatim>\<open>type(v).__name__\<close>, as it appears in the messages of the interpreter.\<close>

fun type_name :: "pyval \<Rightarrow> string" where
  "type_name PNone = ''NoneType''"
| "type_name (PBool b) = ''bool''"
| "type_name (PInt i) = ''int''"
| "type_name (PFloat x) = ''float''"
| "type_name (PStr s) = ''str''"

text \<open>A name between single quotes, as the messages of the interpreter print it.\<close>

definition quoted :: "string \<Rightarrow> string" where
  "quoted s = CHR 0x27 # s @ [CHR 0x27]"

text \<open>
  \<^verbatim>\<open>str.lower()\<close> on code points below 256: the upper-case letters are \<^verbatim>\<open>A\<close>..\<^verbatim>\<open>Z\<close>
  (65..90) and 192..222 without the multiplication sign 215; each maps to the code point
  32 above it.
\<close>

definition lower_char :: "char \<Rightarrow> char" where
  "lower_char c =
     (let n = (of_char c :: nat)
      in if (65 \<le> n \<and> n \<le> 90) \<or> (192 \<le> n \<and> n \<le> 222 \<and> n \<noteq> 215)
         then char_of (n + 32) else c)"

definition lower :: "string \<Rightarrow> string" where
  "lower s = map lower_char s"

text \<open>\<^verbatim>\<open>s.startswith(k)\<close> and the substring test \<^verbatim>\<open>k in s\<close>.\<close>

fun startswith :: "string \<Rightarrow> string \<Rightarrow> bool" where
  "startswith s [] = True"
| "startswith [] (k # ks) = False"
| "startswith (c # cs) (k # ks) = (c = k \<and> startswith cs ks)"

fun py_in :: "string \<Rightarrow> string \<Rightarrow> bool" where
  "py_in k [] = (k = [])"
| "py_in k (c # cs) = (startswith (c # cs) k \<or> py_in k cs)"

text \<open>
  Dictionaries that the code iterates over are association lists in insertion order with
  distinct keys: \<^verbatim>\<open>d.get(k, default)\<close>, and \<^verbatim>\<open>d[k] = v\<close>, which keeps the position of a
  key already present and appends a new key at the end.
\<close>

fun dict_get :: "('k \<times> 'v) list \<Rightarrow> 'k \<Rightarrow> 'v \<Rightarrow> 'v" where
  "dict_get [] k d = d"
| "dict_get ((k', v) # kvs) k d = (if k' = k then v else dict_get kvs k d)"

fun dict_set :: "('k \<times> 'v) list \<Rightarrow> 'k \<Rightarrow> 'v \<Rightarrow> ('k \<times> 'v) list" where
  "dict_set [] k v = [(k, v)]"
| "dict_set ((k', v') # kvs) k v =
     (if k' = k then (k, v) # kvs else (k', v') # dict_set kvs k v)"

text \<open>
  \<^verbatim>\<open>max(items, key=f)\<close> on a non-empty sequence \<open>x # xs\<close>: the running best is replaced
  only by a strictly larger key, so the first maximal item is returned.
\<close>

fun max_by :: "('a \<Rightarrow> 'b::linorder) \<Rightarrow> 'a \<Rightarrow> 'a list \<Rightarrow> 'a" where
  "max_by f best [] = best"
| "max_by f best (x # xs) = max_by f (if f best < f x then x else best) xs"

text \<open>
  \<^verbatim>\<open>sorted(items, key=f, reverse=True)\<close>: the stable sort by descending key (items with
  equal keys keep their order). The stable sorted arrangement of a list is unique, and
  \<open>sort_key\<close> of the negated key computes it.
\<close>

definition sorted_reverse :: "('a \<Rightarrow> rat) \<Rightarrow> 'a list \<Rightarrow> 'a list" where
  "sorted_reverse f xs = sort_key (\<lambda>x. - f x) xs"

text \<open>
  The comparison \<^verbatim>\<open>v > n\<close> of an object with an integer literal. A boolean is the integer
  0 or 1; a float and an integer are compared by value, without rounding.
\<close>

fun py_gt_int :: "pyval \<Rightarrow> int \<Rightarrow> exn + bool" where
  "py_gt_int (PInt i) n = Inr (n < i)"
| "py_gt_int (PFloat x) n = Inr (of_int n < x)"
| "py_gt_int (PBool b) n = Inr (n < (if b then 1 else 0))"
| "py_gt_int v n =
     Inl (TypeError (quoted ''>'' @ '' not supported between instances of ''
                     @ quoted (type_name v) @ '' and '' @ quoted ''int''))"

section \<open>The categorizer\<close>

text \<open>
  The four keyword tables of \<^verbatim>\<open>categorize_expense\<close>, in the order of the dictionary
  literals. The weights are compared and never added; the decimal literals are kept exact,
  since rounding to binary64 keeps two-digit decimals distinct and in the same order.
\<close>

definition transport_keywords :: "(string \<times> rat) list" where
  "transport_keywords =
    [(''flight'', 95/100), (''airline'', 9/10), (''airfare'', 95/100), (''plane'', 8/10),
     (''uber'', 9/10), (''lyft'', 9/10), (''taxi'', 85/100), (''cab'', 8/10),
     (''rideshare'', 85/100),
     (''rental'', 7/10), (''hertz'', 9/10), (''avis'', 9/10), (''enterprise'', 9/10),
     (''parking'', 8/10), (''toll'', 8/10), (''mileage'', 85/100), (''gas'', 6/10)]"

definition lodging_keywords :: "(string \<times> rat) list" where
  "lodging_keywords =
    [(''hotel'', 95/100), (''motel'', 9/10), (''accommodation'', 9/10), (''lodging'', 95/100),
     (''resort'', 85/100), (''inn'', 8/10), (''marriott'', 95/100), (''hilton'', 95/100),
     (''hyatt'', 95/100), (''airbnb'', 8/10), (''booking'', 7/10)]"

definition meal_keywords :: "(string \<times> rat) list" where
  "meal_keywords =
    [(''restaurant'', 9/10), (''dinner'', 85/100), (''lunch'', 85/100), (''breakfast'', 85/100),
     (''meal'', 9/10), (''food'', 7/10), (''cafe'', 8/10), (''starbucks'', 8/10),
     (''mcdonald'', 8/10), (''subway'', 8/10), (''client dinner'', 95/100)]"

definition office_keywords :: "(string \<times> rat) list" where
  "office_keywords =
    [(''office'', 9/10), (''supplies'', 85/100), (''stationery'', 9/10), (''printer'', 8/10),
     (''paper'', 7/10), (''staples'', 9/10), (''depot'', 8/10), (''amazon'', 4/10)]"

text \<open>
  One scoring loop:
  \<^verbatim>\<open>for keyword, score in keywords.items():
      if keyword in description_lower or keyword in merchant_lower:
          category_scores[name] = max(category_scores.get(name, 0), score)\<close>
\<close>

definition score_keywords ::
  "string \<Rightarrow> (string \<times> rat) list \<Rightarrow> string \<Rightarrow> string \<Rightarrow> (string \<times> rat) list
     \<Rightarrow> (string \<times> rat) list" where
  "score_keywords name keywords description_lower merchant_lower category_scores =
     fold (\<lambda>(keyword, score) scores.
             if py_in keyword description_lower \<or> py_in keyword merchant_lower
             then dict_set scores name (max (dict_get scores name 0) score)
             else scores)
          keywords category_scores"

text \<open>The dictionary \<^verbatim>\<open>category_scores\<close> after the four loops.\<close>

definition category_scores :: "string \<Rightarrow> string \<Rightarrow> (string \<times> rat) list" where
  "category_scores description_lower merchant_lower =
     score_keywords ''office_supplies'' office_keywords description_lower merchant_lower
      (score_keywords ''meals'' meal_keywords description_lower merchant_lower
        (score_keywords ''lodging'' lodging_keywords description_lower merchant_lower
          (score_keywords ''transportation'' transport_keywords description_lower
             merchant_lower [])))"

text \<open>
  The subcategory pass. Only the branch for \<^verbatim>\<open>"meals"\<close> looks at the amount, and
  \<^verbatim>\<open>amount > 75\<close> raises \<^verbatim>\<open>TypeError\<close> for an amount that is not a number.
\<close>

definition subcategory_of :: "string \<Rightarrow> string \<Rightarrow> pyval \<Rightarrow> exn + string" where
  "subcategory_of category description_lower amount =
     (if category = ''transportation'' then
        Inr (if list_ex (\<lambda>word. py_in word description_lower)
                  [''flight'', ''airline'', ''airfare''] then ''airfare''
             else if list_ex (\<lambda>word. py_in word description_lower)
                  [''uber'', ''lyft'', ''taxi''] then ''rideshare''
             else if py_in ''rental'' description_lower then ''car_rental''
             else if list_ex (\<lambda>word. py_in word description_lower)
                  [''parking'', ''toll''] then ''misc_transport''
             else ''general'')
      else if category = ''meals'' then
        (case py_gt_int amount 75 of
           Inl e \<Rightarrow> Inl e
         | Inr over \<Rightarrow>
             Inr (if over then ''business_meal''
                  else if list_ex (\<lambda>word. py_in word description_lower) [''breakfast'']
                    then ''breakfast''
                  else if list_ex (\<lambda>word. py_in word description_lower) [''lunch'']
                    then ''lunch''
                  else if list_ex (\<lambda>word. py_in word description_lower) [''dinner'']
                    then ''dinner''
                  else ''general''))
      else Inr ''general'')"

record categorization =
  res_category :: string
  res_subcategory :: string
  res_confidence :: rat
  res_alternative_categories :: "(string \<times> rat) list"
  res_error :: "string option"

text \<open>
  \<^verbatim>\<open>categorize_expense(description, merchant, amount)\<close>. The description and the merchant
  are strings, as the signature declares; the amount is any JSON scalar. The result of the
  \<^verbatim>\<open>except\<close> branch carries the key \<^verbatim>\<open>"error"\<close>, the other results do not
  (\<open>res_error = None\<close>).
\<close>

definition categorize_expense :: "string \<Rightarrow> string \<Rightarrow> pyval \<Rightarrow> categorization" where
  "categorize_expense description merchant amount =
     (let description_lower = lower description;
          merchant_lower = lower merchant;
          scores = category_scores description_lower merchant_lower
      in case scores of
           [] \<Rightarrow>
             \<lparr>res_category = ''miscellaneous'', res_subcategory = ''other'',
              res_confidence = 2/10, res_alternative_categories = [], res_error = None\<rparr>
         | item # items \<Rightarrow>
             (let (category, confidence) = max_by snd item items
              in case subcategory_of category description_lower amount of
                   Inl e \<Rightarrow>
                     \<lparr>res_category = ''miscellaneous'', res_subcategory = ''error'',
                      res_confidence = 0, res_alternative_categories = [],
                      res_error = Some (str_exn e)\<rparr>
                 | Inr subcategory \<Rightarrow>
                     \<lparr>res_category = category, res_subcategory = subcategory,
                      res_confidence = confidence,
                      res_alternative_categories =
                        take 2 (drop 1 (sorted_reverse snd scores)),
                      res_error = None\<rparr>))"

subsection \<open>The scoring rule in the words of the specification\<close>

text \<open>
  A keyword matches when it occurs in the lower-cased description or merchant. The score
  of a table is the maximum weight among its matched keywords, and there is no score when
  none matches. \<open>spec_scores\<close> lists the scored categories in the order of the tables.
  \<open>is_number\<close> holds of the amounts that \<^verbatim>\<open>amount > 75\<close> accepts, and \<open>fallback\<close> is the
  result of the default branch.
\<close>

definition keyword_matches :: "string \<Rightarrow> string \<Rightarrow> string \<Rightarrow> bool" where
  "keyword_matches description_lower merchant_lower keyword =
     (py_in keyword description_lower \<or> py_in keyword merchant_lower)"

definition matched_weights :: "(string \<times> rat) list \<Rightarrow> string \<Rightarrow> string \<Rightarrow> rat list" where
  "matched_weights keywords d m = map snd (filter (\<lambda>kw. keyword_matches d m (fst kw)) keywords)"

definition spec_score :: "(string \<times> rat) list \<Rightarrow> string \<Rightarrow> string \<Rightarrow> rat option" where
  "spec_score keywords d m =
     (if matched_weights keywords d m = [] then None
      else Some (Max (set (matched_weights keywords d m))))"

definition spec_entry :: "string \<Rightarrow> (string \<times> rat) list \<Rightarrow> string \<Rightarrow> string \<Rightarrow> (string \<times> rat) list" where
  "spec_entry name keywords d m =
     (case spec_score keywords d m of None \<Rightarrow> [] | Some s \<Rightarrow> [(name, s)])"

definition spec_scores :: "string \<Rightarrow> string \<Rightarrow> (string \<times> rat) list" where
  "spec_scores d m =
     spec_entry ''transportation'' transport_keywords d m
     @ spec_entry ''lodging'' lodging_keywords d m
     @ spec_entry ''meals'' meal_keywords d m
     @ spec_entry ''office_supplies'' office_keywords d m"



definition all_keywords :: "string list" where
  "all_keywords =
     map fst (transport_keywords @ lodging_keywords @ meal_keywords @ office_keywords)"

definition no_keyword_matched :: "string \<Rightarrow> string \<Rightarrow> bool" where
  "no_keyword_matched d m = list_all (\<lambda>k. \<not> keyword_matches d m k) all_keywords"

definition fallback :: categorization where
  "fallback = \<lparr>res_category = ''miscellaneous'', res_subcategory = ''other'',
     res_confidence = 2/10, res_alternative_categories = [], res_error = None\<rparr>"

section \<open>Floats, dates and the library functions the tools call\<close>

text \<open>
  Python floats are IEEE 754 binary64 numbers: 53 significant bits, least normal exponent
  \<open>-1022\<close>, every operation rounded to the nearest representable value, ties to the even
  significand. \<open>round_binary64 x\<close> is that rounding of the exact value \<open>x\<close>. Results of
  magnitude \<open>2 ^ 1024\<close> and above, which Python turns into an infinity, are left as they
  are; no sum or quotient in a statement below reaches them, and the conversion of an
  integer raises there.
\<close>

function bit_length :: "int \<Rightarrow> int" where
  "bit_length n = (if n \<le> 0 then 0 else 1 + bit_length (n div 2))"
  by pat_completeness auto
termination
  by (relation "measure nat") auto

declare bit_length.simps [simp del]

definition pow2 :: "int \<Rightarrow> rat" where
  "pow2 e = (if 0 \<le> e then 2 ^ nat e else 1 / 2 ^ nat (- e))"

text \<open>
  \<open>floor_log2 x\<close> is the integer \<open>e\<close> with \<open>2 ^ e \<le> x < 2 ^ (e + 1)\<close>, for \<open>x > 0\<close>: the
  difference of the bit lengths of numerator and denominator, or one less.
\<close>

definition floor_log2 :: "rat \<Rightarrow> int" where
  "floor_log2 x =
     (let (a, b) = quotient_of x;
          e = bit_length a - bit_length b
      in if pow2 e \<le> x then e else e - 1)"

definition round_half_even :: "rat \<Rightarrow> int" where
  "round_half_even q =
     (let n = \<lfloor>q\<rfloor>; r = q - of_int n
      in if r < 1/2 then n
         else if 1/2 < r then n + 1
         else if even n then n else n + 1)"

definition round_binary64 :: "rat \<Rightarrow> rat" where
  "round_binary64 x =
     (if x = 0 then 0
      else let e = max (floor_log2 \<bar>x\<bar>) (- 1022);
               ulp = pow2 (e - 52)
           in of_int (round_half_even (x / ulp)) * ulp)"

text \<open>\<^verbatim>\<open>x + y\<close> and \<^verbatim>\<open>x / n\<close> on floats (\<open>n\<close> a positive count, converted exactly).\<close>

definition float_add :: "rat \<Rightarrow> rat \<Rightarrow> rat" where
  "float_add x y = round_binary64 (x + y)"

definition float_div :: "rat \<Rightarrow> nat \<Rightarrow> rat" where
  "float_div x n = round_binary64 (x / of_nat n)"

text \<open>\<^verbatim>\<open>float(i)\<close> of an integer: correctly rounded, \<^verbatim>\<open>OverflowError\<close> beyond the range.\<close>

definition float_of_int :: "int \<Rightarrow> exn + rat" where
  "float_of_int i =
     (let x = round_binary64 (of_int i)
      in if 2 ^ 1024 \<le> \<bar>x\<bar> then Inl (OverflowError ''int too large to convert to float'')
         else Inr x)"

text \<open>
  A \<^verbatim>\<open>datetime\<close> object, as far as the tools look at it: the proleptic Gregorian ordinal
  of its date (1 is 0001-01-01, a Monday), the microseconds since midnight, and the offset
  from UTC in microseconds when the object is timezone-aware.
\<close>

record datetime =
  toordinal :: int
  time_us :: int
  utcoffset :: "int option"

definition weekday :: "datetime \<Rightarrow> int" where
  "weekday dt = (toordinal dt + 6) mod 7"

text \<open>
  \<^verbatim>\<open>(a - b).days\<close>: the difference is a \<^verbatim>\<open>timedelta\<close>, normalised so that \<^verbatim>\<open>days\<close> is the
  floor of the difference in days. Subtracting a naive from an aware object raises.
\<close>

definition day_us :: int where
  "day_us = 86400000000"

definition datetime_sub_days :: "datetime \<Rightarrow> datetime \<Rightarrow> exn + int" where
  "datetime_sub_days a b =
     (let base = (toordinal a - toordinal b) * day_us + (time_us a - time_us b)
      in case (utcoffset a, utcoffset b) of
           (None, None) \<Rightarrow> Inr (base div day_us)
         | (Some oa, Some ob) \<Rightarrow> Inr ((base + ob - oa) div day_us)
         | _ \<Rightarrow> Inl (TypeError ''can't subtract offset-naive and offset-aware datetimes''))"

text \<open>
  The functions of the interpreter and of its standard library that the tools call on
  strings and floats are parameters of the model: \<^verbatim>\<open>float(s)\<close> for a string \<open>s\<close>, the text
  of a float inside an f-string, and \<^verbatim>\<open>datetime.fromisoformat(s)\<close>. Every theorem below
  holds for all of them.
\<close>

record pylib =
  float_of_str :: "string \<Rightarrow> exn + rat"
  float_repr :: "rat \<Rightarrow> string"
  fromisoformat :: "string \<Rightarrow> exn + datetime"

text \<open>\<^verbatim>\<open>float(v)\<close>.\<close>

fun py_float :: "pylib \<Rightarrow> pyval \<Rightarrow> exn + rat" where
  "py_float lib (PFloat x) = Inr x"
| "py_float lib (PInt i) = float_of_int i"
| "py_float lib (PBool b) = Inr (if b then 1 else 0)"
| "py_float lib (PStr s) = float_of_str lib s"
| "py_float lib PNone =
     Inl (TypeError (''float() argument must be a string or a real number, not ''
                     @ quoted ''NoneType''))"

text \<open>\<^verbatim>\<open>s.replace('Z', '+00:00')\<close>.\<close>

definition replace_Z :: "string \<Rightarrow> string" where
  "replace_Z s = concat (map (\<lambda>c. if c = CHR ''Z'' then ''+00:00'' else [c]) s)"

text \<open>The decimal text of a natural number, as an f-string prints \<^verbatim>\<open>{i+1}\<close>.\<close>

fun show_nat :: "nat \<Rightarrow> string" where
  "show_nat n =
     (if n < 10 then [char_of (48 + n)]
      else show_nat (n div 10) @ [char_of (48 + n mod 10)])"

declare show_nat.simps [simp del]

text \<open>
  An expense dictionary, one field for each key the tools read. A key may be absent
  (\<open>None\<close>); \<^verbatim>\<open>d.get(key, default)\<close> is \<open>field_get\<close>. The amount is any JSON scalar; the other fields have the types of the data
  model: strings for category, location, description and date, a boolean for has_receipt.
\<close>

record expense =
  amount_key :: "pyval option"
  category_key :: "string option"
  location_key :: "string option"
  description_key :: "string option"
  date_key :: "string option"
  has_receipt_key :: "bool option"

definition field_get :: "'a option \<Rightarrow> 'a \<Rightarrow> 'a" where
  "field_get field dflt = (case field of None \<Rightarrow> dflt | Some v \<Rightarrow> v)"

section \<open>The validator\<close>

record validation_results =
  is_valid :: bool
  violations :: "string list"
  warnings :: "string list"
  required_documents :: "string list"
  policy_references :: "string list"

text \<open>
  The category-specific rules, the \<^verbatim>\<open>if\<close>/\<^verbatim>\<open>elif\<close> chain on the lower-cased category.
  Each rule appends to the lists of the result built so far.
\<close>

definition category_rules ::
  "pylib \<Rightarrow> rat \<Rightarrow> string \<Rightarrow> string \<Rightarrow> validation_results \<Rightarrow> validation_results" where
  "category_rules lib amount category description validation_results =
     (if category = ''meals'' then
        (let r1 = (if 100 < amount
                   then validation_results
                     \<lparr>violations := violations validation_results
                          @ [''Meal expense of $'' @ float_repr lib amount
                             @ '' exceeds daily policy limit of $100''],
                      policy_references := policy_references validation_results
                          @ [''Section 3.2 - Meal Allowances''],
                      is_valid := False\<rparr>
                   else validation_results);
             r2 = (if 25 < amount
                   then r1\<lparr>required_documents := required_documents r1
                          @ [''Receipt required for meals over $25'']\<rparr>
                   else r1)
         in if 50 < amount \<and> \<not> py_in ''business'' (lower description)
            then r2\<lparr>warnings := warnings r2
                   @ [''High meal expense should include business justification'']\<rparr>
            else r2)
      else if category = ''lodging'' then
        (if 300 < amount
         then validation_results
           \<lparr>violations := violations validation_results
                @ [''Lodging expense of $'' @ float_repr lib amount
                   @ '' exceeds nightly limit of $300''],
            policy_references := policy_references validation_results
                @ [''Section 4.1 - Accommodation Limits''],
            is_valid := False\<rparr>
         else validation_results)
      else if category = ''transportation'' then
        (let r1 = (if list_ex (\<lambda>word. py_in word (lower description))
                        [''uber'', ''lyft'', ''taxi'']
                      \<and> 75 < amount
                   then validation_results
                     \<lparr>warnings := warnings validation_results
                        @ [''Ride-share expenses over $75 may require business justification'']\<rparr>
                   else validation_results)
         in if py_in ''rental'' (lower description) \<and> 500 < amount
            then r1\<lparr>required_documents := required_documents r1
                   @ [''Car rental agreement and fuel receipts required'']\<rparr>
            else r1)
      else if category = ''airfare'' then
        (if 1000 < amount
         then validation_results
           \<lparr>warnings := warnings validation_results
                @ [''Airfare over $1000 may require manager approval for business class''],
            required_documents := required_documents validation_results
                @ [''Flight itinerary and boarding passes'']\<rparr>
         else validation_results)
      else validation_results)"

text \<open>
  The weekend check. Everything raised inside its \<^verbatim>\<open>try\<close> is swallowed by the bare
  \<^verbatim>\<open>except\<close>, so a date that does not parse is not a weekend.
\<close>

definition is_weekend :: "pylib \<Rightarrow> string \<Rightarrow> bool" where
  "is_weekend lib date =
     (date \<noteq> [] \<and>
      (case fromisoformat lib (replace_Z date) of
         Inl e \<Rightarrow> False
       | Inr expense_date \<Rightarrow> 5 \<le> weekday expense_date))"

text \<open>
  \<^verbatim>\<open>validate_expense_data(expense_data)\<close>. With fields of the types above, the only
  statement of the outer \<^verbatim>\<open>try\<close> that can raise is the conversion of the amount.
\<close>

definition validate_expense_data :: "pylib \<Rightarrow> expense \<Rightarrow> validation_results" where
  "validate_expense_data lib expense_data =
     (case py_float lib (field_get (amount_key expense_data) (PInt 0)) of
        Inl e \<Rightarrow>
          \<lparr>is_valid = False,
           violations = [''Error validating expense data: '' @ str_exn e],
           warnings = [], required_documents = [], policy_references = []\<rparr>
      | Inr amount \<Rightarrow>
          (let category = lower (field_get (category_key expense_data) '''');
               description = field_get (description_key expense_data) '''';
               date = field_get (date_key expense_data) '''';
               r0 = \<lparr>is_valid = True, violations = [], warnings = [],
                     required_documents = [], policy_references = []\<rparr>;
               r1 = category_rules lib amount category description r0;
               r2 = (if 25 < amount \<and> \<not> field_get (has_receipt_key expense_data) False
                     then r1\<lparr>required_documents := required_documents r1
                              @ [''Receipt required for all expenses over $25''],
                            policy_references := policy_references r1
                              @ [''Section 2.1 - Documentation Requirements'']\<rparr>
                     else r1)
           in if is_weekend lib date
              then r2\<lparr>warnings := warnings r2 @ [''Weekend expense flagged for review'']\<rparr>
              else r2))"

subsection \<open>The validator with its tool context\<close>

text \<open>
  The second parameter of \<^verbatim>\<open>validate_expense_data\<close> is the tool context of the agent
  runtime, \<^verbatim>\<open>None\<close> by default. The function looks at \<^verbatim>\<open>tool_context.state\<close> only: at its
  truth value and at the key \<^verbatim>\<open>"validation_history"\<close>. The value under that key is the
  list of the entries appended so far, or a scalar that something else stored there. The
  truth value of the state is a field of its own: for a dictionary it is non-emptiness,
  for a state object without \<^verbatim>\<open>__bool__\<close> and \<^verbatim>\<open>__len__\<close> it is always true; storing a key
  does not make it false.
\<close>

record history_entry =
  entry_timestamp :: string
  entry_expense :: expense
  entry_is_valid :: bool
  entry_violations_count :: nat

datatype state_value = HistoryList "history_entry list" | Scalar pyval

record session_state =
  state_truthy :: bool
  validation_history_key :: "state_value option"

record tool_context =
  state :: session_state

text \<open>
  The block \<^verbatim>\<open>if tool_context and tool_context.state:\<close> at the end of the outer \<^verbatim>\<open>try\<close>.
  \<open>now\<close> is the text that \<^verbatim>\<open>datetime.now().isoformat()\<close> returns at the time of the call.
  A missing key is first set to the empty list; \<^verbatim>\<open>.append\<close> on a value that is not a list
  raises \<^verbatim>\<open>AttributeError\<close>. The result is the tool context after the block.
\<close>

definition update_validation_history ::
  "expense \<Rightarrow> validation_results \<Rightarrow> tool_context option \<Rightarrow> string
     \<Rightarrow> exn + tool_context option" where
  "update_validation_history expense_data validation_results tool_context now =
     (case tool_context of
        None \<Rightarrow> Inr None
      | Some tc \<Rightarrow>
          if state_truthy (state tc) then
            (let entry = \<lparr>entry_timestamp = now, entry_expense = expense_data,
                          entry_is_valid = is_valid validation_results,
                          entry_violations_count = length (violations validation_results)\<rparr>;
                 history = (case validation_history_key (state tc) of
                              None \<Rightarrow> HistoryList []
                            | Some v \<Rightarrow> v)
             in case history of
                  HistoryList entries \<Rightarrow>
                    Inr (Some (tc\<lparr>state := (state tc)
                           \<lparr>validation_history_key := Some (HistoryList (entries @ [entry]))\<rparr>\<rparr>))
                | Scalar v \<Rightarrow>
                    Inl (AttributeError (quoted (type_name v) @ '' object has no attribute ''
                                         @ quoted ''append'')))
          else Inr (Some tc))"

text \<open>
  \<^verbatim>\<open>validate_expense_data(expense_data, tool_context)\<close> called when the clock reads \<open>now\<close>:
  the returned dictionary and the tool context after the call. Whatever is raised inside
  the outer \<^verbatim>\<open>try\<close>, by the conversion of the amount or by the update of the history,
  ends in the \<^verbatim>\<open>except\<close> branch, which returns a new dictionary.
\<close>

definition validate_expense_data_ctx ::
  "pylib \<Rightarrow> expense \<Rightarrow> tool_context option \<Rightarrow> string
     \<Rightarrow> validation_results \<times> tool_context option" where
  "validate_expense_data_ctx lib expense_data tool_context now =
     (case py_float lib (field_get (amount_key expense_data) (PInt 0)) of
        Inl e \<Rightarrow>
          (\<lparr>is_valid = False,
            violations = [''Error validating expense data: '' @ str_exn e],
            warnings = [], required_documents = [], policy_references = []\<rparr>,
           tool_context)
      | Inr amount \<Rightarrow>
          (let category = lower (field_get (category_key expense_data) '''');
               description = field_get (description_key expense_data) '''';
               date = field_get (date_key expense_data) '''';
               r0 = \<lparr>is_valid = True, violations = [], warnings = [],
                     required_documents = [], policy_references = []\<rparr>;
               r1 = category_rules lib amount category description r0;
               r2 = (if 25 < amount \<and> \<not> field_get (has_receipt_key expense_data) False
                     then r1\<lparr>required_documents := required_documents r1
                              @ [''Receipt required for all expenses over $25''],
                            policy_references := policy_references r1
                              @ [''Section 2.1 - Documentation Requirements'']\<rparr>
                     else r1);
               r3 = (if is_weekend lib date
                     then r2\<lparr>warnings := warnings r2 @ [''Weekend expense flagged for review'']\<rparr>
                     else r2)
           in case update_validation_history expense_data r3 tool_context now of
                Inl e \<Rightarrow>
                  (\<lparr>is_valid = False,
                    violations = [''Error validating expense data: '' @ str_exn e],
                    warnings = [], required_documents = [], policy_references = []\<rparr>,
                   tool_context)
              | Inr tool_context' \<Rightarrow> (r3, tool_context')))"

section \<open>The aggregator\<close>

record expense_entry =
  entry_amount :: rat
  entry_description :: string
  entry_date :: string

record category_data =
  cat_count :: nat
  cat_total :: rat
  cat_average :: rat
  cat_expenses :: "expense_entry list"

record compliance =
  total_violations :: nat
  cs_violations :: "string list"
  cs_warnings :: "string list"
  ready_for_submission :: bool

record date_range_data =
  start_date :: string
  end_date :: string
  duration_days :: int

record statistics_data =
  average_expense :: rat
  largest_expense :: rat
  smallest_expense :: rat
  most_common_category :: string

text \<open>
  The dictionary \<^verbatim>\<open>summary\<close>. The empty dictionaries \<^verbatim>\<open>{}\<close> that \<^verbatim>\<open>date_range\<close> and
  \<^verbatim>\<open>statistics\<close> start with are \<open>None\<close>.
\<close>

record summary =
  total_amount :: rat
  expense_count :: nat
  categories :: "(string \<times> category_data) list"
  compliance_status :: compliance
  sum_required_documents :: "string list"
  sum_policy_references :: "string list"
  date_range :: "date_range_data option"
  statistics :: "statistics_data option"

text \<open>\<^verbatim>\<open>key in d\<close> for a dictionary.\<close>

definition dict_has :: "('k \<times> 'v) list \<Rightarrow> 'k \<Rightarrow> bool" where
  "dict_has d k = list_ex (\<lambda>kv. fst kv = k) d"

definition new_category_data :: category_data where
  "new_category_data = \<lparr>cat_count = 0, cat_total = 0, cat_average = 0, cat_expenses = []\<rparr>"

text \<open>
  The category tracking of one expense: the bucket is created when the category is new,
  then its count, total and expense list are updated.
\<close>

definition track_category ::
  "string \<Rightarrow> rat \<Rightarrow> expense_entry \<Rightarrow> (string \<times> category_data) list
     \<Rightarrow> (string \<times> category_data) list" where
  "track_category category amount entry cats =
     (let cats1 = (if \<not> dict_has cats category then dict_set cats category new_category_data
                   else cats);
          b = dict_get cats1 category new_category_data
      in dict_set cats1 category
           (b\<lparr>cat_count := cat_count b + 1,
              cat_total := float_add (cat_total b) amount,
              cat_expenses := cat_expenses b @ [entry]\<rparr>))"

text \<open>The prefix \<^verbatim>\<open>f"Expense #{i+1}: "\<close> of the messages of the record at index \<open>i\<close>.\<close>

definition expense_tag :: "nat \<Rightarrow> string" where
  "expense_tag i = ''Expense #'' @ show_nat (i + 1) @ '': ''"

text \<open>
  The body of the loop for the expense at index \<open>i\<close>, on the pair of \<^verbatim>\<open>summary\<close> and
  \<^verbatim>\<open>dates\<close>. The conversion of the amount is the first statement of the inner \<^verbatim>\<open>try\<close>
  and, with fields of the types above, the only one that can raise
  (\<^verbatim>\<open>validate_expense_data\<close> catches its own exceptions); when it raises nothing has been
  updated yet and the \<^verbatim>\<open>except\<close> branch records the error.
\<close>

definition process_expense ::
  "pylib \<Rightarrow> nat \<Rightarrow> expense \<Rightarrow> summary \<times> string list \<Rightarrow> summary \<times> string list" where
  "process_expense lib i expense st =
     (let summary = fst st; dates = snd st; cs = compliance_status summary
      in case py_float lib (field_get (amount_key expense) (PInt 0)) of
           Inl e \<Rightarrow>
             (summary\<lparr>compliance_status :=
                cs\<lparr>cs_violations := cs_violations cs
                       @ [expense_tag i @ ''Error processing expense - '' @ str_exn e],
                   ready_for_submission := False\<rparr>\<rparr>,
              dates)
         | Inr amount \<Rightarrow>
             (let category = field_get (category_key expense) ''miscellaneous'';
                  date = field_get (date_key expense) '''';
                  dates' = (if date \<noteq> [] then dates @ [date] else dates);
                  entry = \<lparr>entry_amount = amount,
                           entry_description = field_get (description_key expense) '''',
                           entry_date = date\<rparr>;
                  validation = validate_expense_data lib expense;
                  cs1 = (if \<not> is_valid validation
                         then cs\<lparr>total_violations :=
                                   total_violations cs + length (violations validation),
                                 cs_violations := cs_violations cs
                                   @ map (\<lambda>violation. expense_tag i @ violation)
                                       (violations validation),
                                 ready_for_submission := False\<rparr>
                         else cs);
                  cs2 = cs1\<lparr>cs_warnings := cs_warnings cs1
                          @ map (\<lambda>warning. expense_tag i @ warning) (warnings validation)\<rparr>
              in (summary
                    \<lparr>total_amount := float_add (total_amount summary) amount,
                     categories := track_category category amount entry (categories summary),
                     compliance_status := cs2,
                     sum_required_documents := sum_required_documents summary
                        @ required_documents validation,
                     sum_policy_references := sum_policy_references summary
                        @ policy_references validation\<rparr>,
                  dates')))"

text \<open>\<^verbatim>\<open>for i, expense in enumerate(expenses)\<close>, from index \<open>i\<close> on.\<close>

fun process_expenses ::
  "pylib \<Rightarrow> nat \<Rightarrow> expense list \<Rightarrow> summary \<times> string list \<Rightarrow> summary \<times> string list" where
  "process_expenses lib i [] st = st"
| "process_expenses lib i (expense # expenses) st =
     process_expenses lib (Suc i) expenses (process_expense lib i expense st)"

text \<open>The category averages; every bucket has a positive count.\<close>

definition with_average :: "category_data \<Rightarrow> category_data" where
  "with_average category_data =
     (if 0 < cat_count category_data
      then category_data\<lparr>cat_average :=
             float_div (cat_total category_data) (cat_count category_data)\<rparr>
      else category_data)"

text \<open>
  \<^verbatim>\<open>list(set(xs))\<close> keeps one copy of each string, in an order that the language does not
  fix. The model lists them in the order of \<open>remdups\<close>; no statement below depends on the
  order.
\<close>

definition list_set :: "string list \<Rightarrow> string list" where
  "list_set xs = remdups xs"

text \<open>
  The date range. The strings are sorted by code point. With two or more dates the last
  and then the first are parsed, and an exception of \<^verbatim>\<open>fromisoformat\<close> or of the
  subtraction leaves the function through the outer \<^verbatim>\<open>try\<close>.
\<close>

definition date_range_of :: "pylib \<Rightarrow> string list \<Rightarrow> exn + date_range_data option" where
  "date_range_of lib dates =
     (if dates = [] then Inr None
      else let sorted_dates = sort dates;
               first = hd sorted_dates;
               final = last sorted_dates
           in if 1 < length sorted_dates then
                (case fromisoformat lib (replace_Z final) of
                   Inl e \<Rightarrow> Inl e
                 | Inr d1 \<Rightarrow>
                     (case fromisoformat lib (replace_Z first) of
                        Inl e \<Rightarrow> Inl e
                      | Inr d0 \<Rightarrow>
                          (case datetime_sub_days d1 d0 of
                             Inl e \<Rightarrow> Inl e
                           | Inr days \<Rightarrow>
                               Inr (Some \<lparr>start_date = first, end_date = final,
                                          duration_days = days + 1\<rparr>))))
              else Inr (Some \<lparr>start_date = first, end_date = final, duration_days = 1\<rparr>))"

text \<open>
  \<^verbatim>\<open>float(exp.get("amount", 0)) for exp in expenses\<close>: the amounts are converted again,
  outside the inner \<^verbatim>\<open>try\<close>; the first conversion that fails raises.
\<close>

fun amounts_of :: "pylib \<Rightarrow> expense list \<Rightarrow> exn + rat list" where
  "amounts_of lib [] = Inr []"
| "amounts_of lib (exp' # expenses) =
     (case py_float lib (field_get (amount_key exp') (PInt 0)) of
        Inl e \<Rightarrow> Inl e
      | Inr a \<Rightarrow>
          (case amounts_of lib expenses of
             Inl e \<Rightarrow> Inl e
           | Inr amounts \<Rightarrow> Inr (a # amounts)))"

text \<open>
  The statistics of a non-empty list of expenses. \<^verbatim>\<open>max\<close> and \<^verbatim>\<open>min\<close> run over the same
  conversions, so one pass stands for both.
\<close>

definition statistics_of ::
  "pylib \<Rightarrow> expense list \<Rightarrow> summary \<Rightarrow> exn + statistics_data" where
  "statistics_of lib expenses summary =
     (case amounts_of lib expenses of
        Inl e \<Rightarrow> Inl e
      | Inr amounts \<Rightarrow>
          Inr \<lparr>average_expense = float_div (total_amount summary) (expense_count summary),
               largest_expense = fold max (tl amounts) (hd amounts),
               smallest_expense = fold min (tl amounts) (hd amounts),
               most_common_category =
                 (case categories summary of
                    [] \<Rightarrow> ''none''
                  | item # items \<Rightarrow> fst (max_by (\<lambda>x. cat_count (snd x)) item items))\<rparr>)"

text \<open>The result of the outer \<^verbatim>\<open>except\<close> branch.\<close>

definition error_summary :: "exn \<Rightarrow> summary" where
  "error_summary e =
     \<lparr>total_amount = 0, expense_count = 0, categories = [],
      compliance_status =
        \<lparr>total_violations = 1,
         cs_violations = [''Error generating summary: '' @ str_exn e],
         cs_warnings = [], ready_for_submission = False\<rparr>,
      sum_required_documents = [], sum_policy_references = [],
      date_range = None, statistics = None\<rparr>"

definition initial_summary :: "expense list \<Rightarrow> summary" where
  "initial_summary expenses =
     \<lparr>total_amount = 0, expense_count = length expenses, categories = [],
      compliance_status =
        \<lparr>total_violations = 0, cs_violations = [], cs_warnings = [],
         ready_for_submission = True\<rparr>,
      sum_required_documents = [], sum_policy_references = [],
      date_range = None, statistics = None\<rparr>"

text \<open>
  The statements after the loop: averages, removal of duplicates, date range, statistics.
\<close>

definition finish_summary ::
  "pylib \<Rightarrow> expense list \<Rightarrow> summary \<times> string list \<Rightarrow> exn + summary" where
  "finish_summary lib expenses st =
     (let summary = fst st; dates = snd st;
          s1 = summary
            \<lparr>categories := map (\<lambda>kv. (fst kv, with_average (snd kv))) (categories summary),
             sum_required_documents := list_set (sum_required_documents summary),
             sum_policy_references := list_set (sum_policy_references summary)\<rparr>
      in case date_range_of lib dates of
           Inl e \<Rightarrow> Inl e
         | Inr dr \<Rightarrow>
             (let s2 = s1\<lparr>date_range := dr\<rparr>
              in if 0 < expense_count s2 then
                   (case statistics_of lib expenses s2 of
                      Inl e \<Rightarrow> Inl e
                    | Inr stats \<Rightarrow> Inr (s2\<lparr>statistics := Some stats\<rparr>))
                 else Inr s2))"

text \<open>\<^verbatim>\<open>generate_expense_summary(expenses)\<close>.\<close>

definition generate_expense_summary :: "pylib \<Rightarrow> expense list \<Rightarrow> summary" where
  "generate_expense_summary lib expenses =
     (case finish_summary lib expenses
             (process_expenses lib 0 expenses (initial_summary expenses, [])) of
        Inl e \<Rightarrow> error_summary e
      | Inr summary \<Rightarrow> summary)"

section \<open>A concrete library for the examples\<close>

text \<open>
  The examples need values for the three library functions. \<open>example_lib\<close> agrees with
  CPython on the strings and numbers the examples use: \<^verbatim>\<open>float(s)\<close> for a string of
  decimal digits and for a string with a letter that no float literal has,
  the text of a whole-numbered float below \<open>10 ^ 16\<close>, and \<^verbatim>\<open>fromisoformat\<close> for a date
  written \<^verbatim>\<open>YYYY-MM-DD\<close>.
\<close>

definition is_digit :: "char \<Rightarrow> bool" where
  "is_digit c = (48 \<le> (of_char c :: nat) \<and> (of_char c :: nat) \<le> 57)"

definition digits_value :: "string \<Rightarrow> int" where
  "digits_value s = foldl (\<lambda>acc c. 10 * acc + (of_char c - 48)) 0 s"

definition example_float_of_str :: "string \<Rightarrow> exn + rat" where
  "example_float_of_str s =
     (if s \<noteq> [] \<and> list_all is_digit s then Inr (round_binary64 (of_int (digits_value s)))
      else Inl (ValueError (''could not convert string to float: '' @ quoted s)))"

definition example_float_repr :: "rat \<Rightarrow> string" where
  "example_float_repr x =
     (if x < 0 then ''-'' else '''') @ show_nat (nat \<lfloor>\<bar>x\<bar>\<rfloor>) @ ''.0''"

definition is_leap :: "int \<Rightarrow> bool" where
  "is_leap y = (y mod 4 = 0 \<and> (y mod 100 \<noteq> 0 \<or> y mod 400 = 0))"

definition days_in_month :: "int \<Rightarrow> int \<Rightarrow> int" where
  "days_in_month y m =
     (if m = 2 then (if is_leap y then 29 else 28)
      else if m \<in> {4, 6, 9, 11} then 30 else 31)"

definition days_before_year :: "int \<Rightarrow> int" where
  "days_before_year y = (y - 1) * 365 + (y - 1) div 4 - (y - 1) div 100 + (y - 1) div 400"

definition days_before_month :: "int \<Rightarrow> int \<Rightarrow> int" where
  "days_before_month y m = sum_list (map (days_in_month y) [1..m - 1])"

definition example_fromisoformat :: "string \<Rightarrow> exn + datetime" where
  "example_fromisoformat s =
     (let y = digits_value (take 4 s);
          m = digits_value (take 2 (drop 5 s));
          d = digits_value (drop 8 s)
      in if length s = 10 \<and> list_all is_digit (take 4 s @ take 2 (drop 5 s) @ drop 8 s)
            \<and> s ! 4 = CHR ''-'' \<and> s ! 7 = CHR ''-''
            \<and> 1 \<le> y \<and> 1 \<le> m \<and> m \<le> 12 \<and> 1 \<le> d \<and> d \<le> days_in_month y m
         then Inr \<lparr>toordinal = days_before_year y + days_before_month y m + d,
                   time_us = 0, utcoffset = None\<rparr>
         else Inl (ValueError (''Invalid isoformat string: '' @ quoted s)))"

definition example_lib :: pylib where
  "example_lib =
     \<lparr>float_of_str = example_float_of_str, float_repr = example_float_repr,
      fromisoformat = example_fromisoformat\<rparr>"

text \<open>
  The example records: the dictionary with the keys \<^verbatim>\<open>amount\<close>, \<^verbatim>\<open>category\<close>,
  \<^verbatim>\<open>description\<close> and \<^verbatim>\<open>has_receipt\<close>, and no location and no date.
\<close>

definition expense_of :: "pyval \<Rightarrow> string \<Rightarrow> string \<Rightarrow> bool \<Rightarrow> expense" where
  "expense_of a c d r =
     \<lparr>amount_key = Some a, category_key = Some c, location_key = None,
      description_key = Some d, date_key = None, has_receipt_key = Some r\<rparr>"

subsection \<open>Notions used to state the properties of the aggregator\<close>

text \<open>
  \<open>converts lib e\<close>: \<^verbatim>\<open>float()\<close> accepts the amount of the record. \<open>category_of e\<close>: the
  key of its bucket. \<open>count_in cats c\<close>: the count of category \<open>c\<close> in the mapping, \<open>None\<close>
  when \<open>c\<close> is not a key.
\<close>

definition converts :: "pylib \<Rightarrow> expense \<Rightarrow> bool" where
  "converts lib e =
     (case py_float lib (field_get (amount_key e) (PInt 0)) of
        Inl x \<Rightarrow> False | Inr a \<Rightarrow> True)"

definition category_of :: "expense \<Rightarrow> string" where
  "category_of e = field_get (category_key e) ''miscellaneous''"

definition count_in :: "(string \<times> category_data) list \<Rightarrow> string \<Rightarrow> nat option" where
  "count_in cats c = map_option cat_count (map_of cats c)"

definition total_in :: "(string \<times> category_data) list \<Rightarrow> string \<Rightarrow> rat option" where
  "total_in cats c = map_option cat_total (map_of cats c)"

text \<open>
  A count after \<open>n\<close> more records of the category: unchanged when \<open>n = 0\<close>, else the
  count before (0 when the category was not a key) plus \<open>n\<close>.
\<close>

definition plus_count :: "nat option \<Rightarrow> nat \<Rightarrow> nat option" where
  "plus_count before n = (if n = 0 then before
     else Some ((case before of None \<Rightarrow> 0 | Some m \<Rightarrow> m) + n))"

text \<open>
  \<open>amount_value lib e\<close>: the float that the amount of the record converts to, 0 when it
  does not convert. \<open>converted_amounts lib es\<close>: the amounts that the loop adds up, in
  input order. \<open>plus_total before amounts\<close>: a category total after adding \<open>amounts\<close> in
  order, unchanged when there are none, starting from 0 when the category was not a key.
\<close>

definition amount_value :: "pylib \<Rightarrow> expense \<Rightarrow> rat" where
  "amount_value lib e =
     (case py_float lib (field_get (amount_key e) (PInt 0)) of
        Inl x \<Rightarrow> 0 | Inr a \<Rightarrow> a)"

definition converted_amounts :: "pylib \<Rightarrow> expense list \<Rightarrow> rat list" where
  "converted_amounts lib es = map (amount_value lib) (filter (converts lib) es)"

definition plus_total :: "rat option \<Rightarrow> rat list \<Rightarrow> rat option" where
  "plus_total before amounts =
     (if amounts = [] then before
      else Some (foldl float_add (case before of None \<Rightarrow> 0 | Some t \<Rightarrow> t) amounts))"

text \<open>
  \<open>whole_amounts lib es\<close>: every amount that converts is a whole number, and the
  magnitudes of the amounts add up to less than \<open>2 ^ 53\<close>. Then no addition of the loop
  rounds.
\<close>

definition is_whole :: "rat \<Rightarrow> bool" where
  "is_whole x = (of_int \<lfloor>x\<rfloor> = x)"

definition whole_amounts :: "pylib \<Rightarrow> expense list \<Rightarrow> bool" where
  "whole_amounts lib es =
     (list_all (\<lambda>e. is_whole (amount_value lib e)) es
      \<and> sum_list (map (\<lambda>e. \<bar>amount_value lib e\<bar>) es) < 2 ^ 53)"

section \<open>Properties of the float model\<close>

text \<open>Integers of magnitude below \<open>2 ^ 53\<close> are floats, and sums that stay below are exact.\<close>

lemma bit_length_nonpos: "n \<le> 0 \<Longrightarrow> bit_length n = 0"
  by (subst bit_length.simps) simp

lemma bit_length_pos: "0 < n \<Longrightarrow> bit_length n = 1 + bit_length (n div 2)"
  by (subst bit_length.simps) simp

lemma bit_length_one: "bit_length 1 = 1"
  by (simp add: bit_length_pos bit_length_nonpos)

lemma bit_length_le: "n < 2 ^ k \<Longrightarrow> bit_length n \<le> int k"
proof (induction k arbitrary: n)
  case 0
  then show ?case by (simp add: bit_length_nonpos)
next
  case (Suc k)
  show ?case
  proof (cases "0 < n")
    case False
    then show ?thesis by (simp add: bit_length_nonpos)
  next
    case True
    have "n div 2 < 2 ^ k" using Suc.prems by simp
    then have "bit_length (n div 2) \<le> int k" by (rule Suc.IH)
    then show ?thesis using True by (simp add: bit_length_pos)
  qed
qed

lemma floor_log2_int_le:
  assumes "0 < n" and "n < 2 ^ 53"
  shows "floor_log2 (of_int n) \<le> 52"
proof -
  have "bit_length n \<le> 53" using bit_length_le [OF assms(2)] by simp
  then show ?thesis
    by (simp add: floor_log2_def quotient_of_int bit_length_one Let_def)
qed

lemma round_half_even_int: "round_half_even (of_int j) = j"
  by (simp add: round_half_even_def)

lemma round_binary64_int:
  assumes "\<bar>n\<bar> < 2 ^ 53"
  shows "round_binary64 (of_int n) = of_int n"
proof (cases "n = 0")
  case True
  then show ?thesis by (simp add: round_binary64_def)
next
  case False
  define e where "e = max (floor_log2 \<bar>of_int n\<bar>) (- 1022)"
  have "\<bar>of_int n :: rat\<bar> = of_int \<bar>n\<bar>" by simp
  moreover have "floor_log2 (of_int \<bar>n\<bar>) \<le> 52"
    using False assms by (intro floor_log2_int_le) auto
  ultimately have e52: "e \<le> 52" by (simp add: e_def)
  define k where "k = nat (52 - e)"
  have ulp: "pow2 (e - 52) = 1 / 2 ^ k"
    using e52 by (auto simp: pow2_def k_def)
  have "of_int n / pow2 (e - 52) = (of_int (n * 2 ^ k) :: rat)"
    by (simp add: ulp)
  then have "round_half_even (of_int n / pow2 (e - 52)) = n * 2 ^ k"
    by (simp only: round_half_even_int)
  then have "of_int (round_half_even (of_int n / pow2 (e - 52))) * pow2 (e - 52)
      = (of_int n :: rat)"
    by (simp add: ulp)
  then show ?thesis
    using False by (simp add: round_binary64_def Let_def e_def [symmetric])
qed

lemma float_of_int_exact:
  assumes "\<bar>n\<bar> < 2 ^ 53"
  shows "float_of_int n = Inr (of_int n)"
proof -
  have "\<bar>of_int n :: rat\<bar> = of_int \<bar>n\<bar>" by simp
  also have "\<dots> < of_int (2 ^ 53)" using assms by (simp only: of_int_less_iff)
  also have "\<dots> < (2 ^ 1024 :: rat)" by simp
  finally have "\<not> 2 ^ 1024 \<le> \<bar>of_int n :: rat\<bar>" by simp
  then show ?thesis
    by (simp add: float_of_int_def round_binary64_int [OF assms] Let_def)
qed

lemma float_add_int:
  assumes "\<bar>a + b\<bar> < 2 ^ 53"
  shows "float_add (of_int a) (of_int b) = of_int (a + b)"
  using round_binary64_int [OF assms] by (simp add: float_add_def)

lemma py_float_int_exact:
  "\<bar>n\<bar> < 2 ^ 53 \<Longrightarrow> py_float lib (PInt n) = Inr (of_int n)"
  by (simp add: float_of_int_exact)

text \<open>Powers of two from \<open>2 ^ 52\<close> on are floats; \<^verbatim>\<open>float(2 ** 1024)\<close> is out of range.\<close>

lemma bit_length_pow2: "bit_length (2 ^ k) = int k + 1"
proof (induction k)
  case 0
  show ?case by (simp add: bit_length_one)
next
  case (Suc k)
  have "bit_length (2 ^ Suc k) = 1 + bit_length (2 ^ Suc k div 2)"
    by (rule bit_length_pos) simp
  then show ?case using Suc by simp
qed

lemma floor_log2_pow2: "floor_log2 (2 ^ k) = int k"
proof -
  have "quotient_of (rat_of_int (2 ^ k)) = (2 ^ k, 1)"
    unfolding Rat.of_int_def [symmetric] by (rule quotient_of_int)
  then have "quotient_of (2 ^ k) = (2 ^ k, 1)" by simp
  then show ?thesis
    by (simp add: floor_log2_def bit_length_pow2 bit_length_one pow2_def Let_def)
qed

lemma round_binary64_pow2:
  assumes "52 \<le> k"
  shows "round_binary64 (2 ^ k) = 2 ^ k"
proof -
  have e: "max (floor_log2 \<bar>2 ^ k\<bar>) (- 1022) = int k"
    by (simp add: floor_log2_pow2)
  have ulp: "pow2 (int k - 52) = 2 ^ (k - 52)"
    using assms by (simp add: pow2_def nat_diff_distrib')
  have "k = (k - 52) + 52" using assms by simp
  then have "(2 ^ k :: rat) = 2 ^ (k - 52) * 2 ^ 52" by (metis power_add)
  then have p: "(2 ^ k :: rat) = 2 ^ (k - 52) * of_int (2 ^ 52)" by simp
  then have q: "(2 ^ k :: rat) / 2 ^ (k - 52) = of_int (2 ^ 52)" by simp
  have "round_half_even ((2 ^ k :: rat) / 2 ^ (k - 52)) = 2 ^ 52"
    unfolding q by (rule round_half_even_int)
  moreover have "(of_int (2 ^ 52) :: rat) * 2 ^ (k - 52) = 2 ^ k"
    using p by (simp only: mult.commute)
  ultimately show ?thesis
    by (simp only: round_binary64_def Let_def e ulp) simp
qed

lemma float_of_int_overflow:
  "float_of_int (2 ^ 1024) = Inl (OverflowError ''int too large to convert to float'')"
proof -
  have "round_binary64 (of_int (2 ^ 1024)) = 2 ^ 1024"
    using round_binary64_pow2 [of 1024] by simp
  then show ?thesis by (simp add: float_of_int_def Let_def)
qed

section \<open>Properties of the categorizer\<close>

subsection \<open>The scoring loops compute the maximum matched weight\<close>

lemma dict_get_dict_set: "dict_get (dict_set s k v) k d = v"
  by (induction s) auto

lemma dict_set_dict_set: "dict_set (dict_set s k v) k w = dict_set s k w"
  by (induction s) auto

lemma dict_set_fresh: "k \<notin> fst ` set s \<Longrightarrow> dict_set s k v = s @ [(k, v)]"
  by (induction s) auto

lemma dict_get_fresh: "k \<notin> fst ` set s \<Longrightarrow> dict_get s k d = d"
  by (induction s) auto

lemma score_keywords_fold:
  "score_keywords name keywords d m scores =
     (if matched_weights keywords d m = [] then scores
      else dict_set scores name (fold max (matched_weights keywords d m) (dict_get scores name 0)))"
proof (induction "keywords" arbitrary: scores)
  case Nil
  show ?case by (simp add: score_keywords_def matched_weights_def)
next
  case (Cons kw kws)
  obtain k w where kw: "kw = (k, w)" by (cases kw)
  have step: "score_keywords name ((k, w) # kws) d m scores =
      score_keywords name kws d m
        (if keyword_matches d m k then dict_set scores name (max (dict_get scores name 0) w)
         else scores)"
    by (simp add: score_keywords_def keyword_matches_def)
  show ?case
  proof (cases "keyword_matches d m k")
    case False
    then have mw: "matched_weights ((k, w) # kws) d m = matched_weights kws d m"
      by (simp add: matched_weights_def)
    show ?thesis
      unfolding kw step mw using False Cons.IH [of scores] by simp
  next
    case True
    then have mw: "matched_weights ((k, w) # kws) d m = w # matched_weights kws d m"
      by (simp add: matched_weights_def)
    show ?thesis
      unfolding kw step mw
      using True Cons.IH [of "dict_set scores name (max (dict_get scores name 0) w)"]
      by (simp add: dict_get_dict_set dict_set_dict_set max.commute)
  qed
qed

lemma fold_max_zero:
  assumes "ws \<noteq> []" and "\<forall>w \<in> set ws. (0::rat) \<le> w"
  shows "fold max ws 0 = Max (set ws)"
proof -
  have "fold max ws 0 = Max (set (0 # ws))"
    by (simp only: Max.set_eq_fold)
  also have "\<dots> = max 0 (Max (set ws))"
    using assms(1) by simp
  also have "\<dots> = Max (set ws)"
  proof -
    obtain w where "w \<in> set ws" using assms(1) by (cases ws) auto
    then have "0 \<le> Max (set ws)"
      using assms(2) by (meson List.finite_set Max_ge order_trans)
    then show ?thesis by simp
  qed
  finally show ?thesis .
qed

lemma score_keywords_spec:
  assumes "name \<notin> fst ` set scores" and "\<forall>w \<in> snd ` set keywords. 0 \<le> w"
  shows "score_keywords name keywords d m scores = scores @ spec_entry name keywords d m"
proof (cases "matched_weights keywords d m = []")
  case True
  then show ?thesis
    by (simp add: score_keywords_fold spec_entry_def spec_score_def)
next
  case False
  have "\<forall>w \<in> set (matched_weights keywords d m). 0 \<le> w"
    using assms(2) by (auto simp: matched_weights_def)
  then have "fold max (matched_weights keywords d m) 0 = Max (set (matched_weights keywords d m))"
    using False by (rule fold_max_zero [rotated])
  then show ?thesis
    using False assms(1)
    by (simp add: score_keywords_fold spec_entry_def spec_score_def dict_set_fresh dict_get_fresh)
qed

lemma fst_spec_entry: "fst ` set (spec_entry name keywords d m) \<subseteq> {name}"
  by (auto simp: spec_entry_def split: option.splits)

lemma weights_nonneg:
  "\<forall>w \<in> snd ` set transport_keywords. 0 \<le> w"
  "\<forall>w \<in> snd ` set lodging_keywords. 0 \<le> w"
  "\<forall>w \<in> snd ` set meal_keywords. 0 \<le> w"
  "\<forall>w \<in> snd ` set office_keywords. 0 \<le> w"
  by (simp_all add: transport_keywords_def lodging_keywords_def meal_keywords_def
        office_keywords_def)

lemma category_scores_spec: "category_scores d m = spec_scores d m"
proof -
  let ?t = "spec_entry ''transportation'' transport_keywords d m"
  let ?l = "spec_entry ''lodging'' lodging_keywords d m"
  let ?e = "spec_entry ''meals'' meal_keywords d m"
  have t: "score_keywords ''transportation'' transport_keywords d m [] = ?t"
    using score_keywords_spec [of "''transportation''" "[]" transport_keywords d m]
      weights_nonneg(1) by simp
  have "''lodging'' \<notin> fst ` set ?t"
    using fst_spec_entry [of "''transportation''" transport_keywords d m] by auto
  then have l: "score_keywords ''lodging'' lodging_keywords d m ?t = ?t @ ?l"
    using score_keywords_spec weights_nonneg(2) by blast
  have "''meals'' \<notin> fst ` set (?t @ ?l)"
    using fst_spec_entry [of "''transportation''" transport_keywords d m]
      fst_spec_entry [of "''lodging''" lodging_keywords d m] by auto
  then have e: "score_keywords ''meals'' meal_keywords d m (?t @ ?l) = (?t @ ?l) @ ?e"
    using score_keywords_spec weights_nonneg(3) by blast
  have "''office_supplies'' \<notin> fst ` set ((?t @ ?l) @ ?e)"
    using fst_spec_entry [of "''transportation''" transport_keywords d m]
      fst_spec_entry [of "''lodging''" lodging_keywords d m]
      fst_spec_entry [of "''meals''" meal_keywords d m] by auto
  then have "score_keywords ''office_supplies'' office_keywords d m ((?t @ ?l) @ ?e)
      = ((?t @ ?l) @ ?e) @ spec_entry ''office_supplies'' office_keywords d m"
    using score_keywords_spec weights_nonneg(4) by blast
  then show ?thesis
    by (simp add: category_scores_def spec_scores_def t l e)
qed

subsection \<open>The first maximum and the head of the descending sort\<close>






lemma max_by_in: "max_by f b xs \<in> set (b # xs)"
  by (induction xs arbitrary: b) auto








subsection \<open>The result of the categorizer\<close>

lemma spec_entry_empty_iff:
  "spec_entry name kws d m = [] \<longleftrightarrow> list_all (\<lambda>k. \<not> keyword_matches d m k) (map fst kws)"
  by (auto simp: spec_entry_def spec_score_def matched_weights_def filter_empty_conv
        list_all_iff)

lemma spec_scores_empty_iff: "spec_scores d m = [] \<longleftrightarrow> no_keyword_matched d m"
  by (simp add: spec_scores_def spec_entry_empty_iff no_keyword_matched_def all_keywords_def)

lemma spec_scores_keys:
  "distinct (map fst (spec_scores d m))"
  "fst ` set (spec_scores d m) \<subseteq> {''transportation'', ''lodging'', ''meals'', ''office_supplies''}"
  by (auto simp: spec_scores_def spec_entry_def split: option.splits)

lemma categorize_no_match:
  "category_scores (lower description) (lower merchant) = [] \<Longrightarrow>
     categorize_expense description merchant amount = fallback"
  by (simp add: categorize_expense_def fallback_def)

lemma categorize_match:
  assumes "category_scores (lower description) (lower merchant) = item # items"
  shows "(\<exists>e. categorize_expense description merchant amount =
            \<lparr>res_category = ''miscellaneous'', res_subcategory = ''error'',
             res_confidence = 0, res_alternative_categories = [], res_error = Some e\<rparr>)
       \<or> (\<exists>s. categorize_expense description merchant amount =
            \<lparr>res_category = fst (max_by snd item items), res_subcategory = s,
             res_confidence = snd (max_by snd item items),
             res_alternative_categories = take 2 (drop 1 (sorted_reverse snd (item # items))),
             res_error = None\<rparr>)"
  using assms
  by (cases "subcategory_of (fst (max_by snd item items)) (lower description) amount")
     (simp_all add: categorize_expense_def Let_def case_prod_beta)



text \<open>
  Claim C1, as the code has it. No keyword of the four tables occurs in the lower-cased
  description or merchant exactly when the result is the fallback: category
  \<^verbatim>\<open>"miscellaneous"\<close>, subcategory \<^verbatim>\<open>"other"\<close>, confidence 0.2 (not 0.0), no alternative
  categories. This holds for every amount, numeric or not.
\<close>

theorem categorize_expense_fallback:
  "no_keyword_matched (lower description) (lower merchant)
     \<longleftrightarrow> categorize_expense description merchant amount = fallback"
proof (cases "category_scores (lower description) (lower merchant)")
  case Nil
  then have "no_keyword_matched (lower description) (lower merchant)"
    by (simp add: category_scores_spec spec_scores_empty_iff [symmetric])
  then show ?thesis using categorize_no_match [OF Nil] by simp
next
  case (Cons item items)
  then have nm: "\<not> no_keyword_matched (lower description) (lower merchant)"
    by (simp add: category_scores_spec spec_scores_empty_iff [symmetric])
  have "max_by snd item items \<in> set (item # items)" by (rule max_by_in)
  then have "fst (max_by snd item items) \<in> fst ` set (spec_scores (lower description) (lower merchant))"
    using Cons by (simp only: category_scores_spec [symmetric]) (rule imageI)
  then have "fst (max_by snd item items) \<noteq> ''miscellaneous''"
    using spec_scores_keys(2) [of "lower description" "lower merchant"] by auto
  then have "categorize_expense description merchant amount \<noteq> fallback"
    using categorize_match [OF Cons, of amount] by (auto simp: fallback_def)
  then show ?thesis using nm by simp
qed

text \<open>
  The claim as stated asks for confidence 0.0 in the no-match case, in particular for
  \<^verbatim>\<open>categorize_expense("", "", 0)\<close>. There no keyword matches, the category is the
  fallback, and the confidence is not 0.
\<close>

theorem categorize_expense_empty_counterexample:
  "no_keyword_matched (lower '''') (lower '''')
   \<and> res_category (categorize_expense '''' '''' (PInt 0)) = ''miscellaneous''
   \<and> res_confidence (categorize_expense '''' '''' (PInt 0)) \<noteq> 0"
  by code_simp

theorem categorize_expense_fallback_witness:
  "no_keyword_matched (lower ''Team gift'') (lower ''Etsy'')
   \<and> categorize_expense ''Team gift'' ''Etsy'' (PInt 40) = fallback
   \<and> \<not> no_keyword_matched (lower ''Taxi to airport'') (lower '''')
   \<and> categorize_expense ''Taxi to airport'' '''' (PInt 40) \<noteq> fallback"
proof -
  have a: "no_keyword_matched (lower ''Team gift'') (lower ''Etsy'')" by code_simp
  have b: "\<not> no_keyword_matched (lower ''Taxi to airport'') (lower '''')" by code_simp
  show ?thesis
    using a b categorize_expense_fallback [of "''Team gift''" "''Etsy''" "PInt 40"]
      categorize_expense_fallback [of "''Taxi to airport''" "''''" "PInt 40"]
    by simp
qed




text \<open>
  Claim C8. \<^verbatim>\<open>categorize_expense("Dinner with client", "", 85)\<close> returns category
  \<^verbatim>\<open>"meals"\<close>, subcategory \<^verbatim>\<open>"business_meal"\<close> and a confidence of at least 0.85.
\<close>

theorem categorize_expense_dinner_with_client:
  "res_category (categorize_expense ''Dinner with client'' '''' (PInt 85)) = ''meals''
   \<and> res_subcategory (categorize_expense ''Dinner with client'' '''' (PInt 85))
       = ''business_meal''
   \<and> 85/100 \<le> res_confidence (categorize_expense ''Dinner with client'' '''' (PInt 85))"
  by code_simp

section \<open>Properties of the validator\<close>

lemma category_rules_valid_iff:
  assumes "is_valid r \<longleftrightarrow> violations r = []"
  shows "is_valid (category_rules lib a c d r) \<longleftrightarrow> violations (category_rules lib a c d r) = []"
proof -
  consider (meals) "c = ''meals''"
    | (lodging) "c \<noteq> ''meals''" "c = ''lodging''"
    | (transportation) "c \<noteq> ''meals''" "c \<noteq> ''lodging''" "c = ''transportation''"
    | (airfare) "c \<noteq> ''meals''" "c \<noteq> ''lodging''" "c \<noteq> ''transportation''" "c = ''airfare''"
    | (other) "c \<noteq> ''meals''" "c \<noteq> ''lodging''" "c \<noteq> ''transportation''" "c \<noteq> ''airfare''"
    by blast
  then show ?thesis
  proof cases
    case meals
    have "category_rules lib a ''meals'' d r =
        (let r1 = (if 100 < a
                   then r\<lparr>violations := violations r
                          @ [''Meal expense of $'' @ float_repr lib a
                             @ '' exceeds daily policy limit of $100''],
                      policy_references := policy_references r
                          @ [''Section 3.2 - Meal Allowances''],
                      is_valid := False\<rparr>
                   else r);
             r2 = (if 25 < a
                   then r1\<lparr>required_documents := required_documents r1
                          @ [''Receipt required for meals over $25'']\<rparr>
                   else r1)
         in if 50 < a \<and> \<not> py_in ''business'' (lower d)
            then r2\<lparr>warnings := warnings r2
                   @ [''High meal expense should include business justification'']\<rparr>
            else r2)"
      unfolding category_rules_def by (simp only: simp_thms if_True)
    then show ?thesis using assms unfolding meals by (simp add: Let_def)
  next
    case lodging
    then show ?thesis using assms unfolding category_rules_def by (simp only: simp_thms if_False if_True) simp
  next
    case transportation
    then show ?thesis using assms unfolding category_rules_def
      by (simp only: simp_thms if_False if_True) (simp add: Let_def)
  next
    case airfare
    then show ?thesis using assms unfolding category_rules_def
      by (simp only: simp_thms if_False if_True) simp
  next
    case other
    then show ?thesis using assms unfolding category_rules_def
      by (simp only: simp_thms if_False if_True)
  qed
qed

lemma category_rules_meals_over:
  assumes "100 < a"
  shows "category_rules lib a ''meals'' d r =
     (let r2 = r\<lparr>violations := violations r
                    @ [''Meal expense of $'' @ float_repr lib a
                       @ '' exceeds daily policy limit of $100''],
                  policy_references := policy_references r @ [''Section 3.2 - Meal Allowances''],
                  is_valid := False,
                  required_documents := required_documents r
                    @ [''Receipt required for meals over $25'']\<rparr>
      in if \<not> py_in ''business'' (lower d)
         then r2\<lparr>warnings := warnings r2
                @ [''High meal expense should include business justification'']\<rparr>
         else r2)"
  using assms by (simp add: category_rules_def Let_def)

lemma category_rules_small:
  assumes "a \<le> 25"
  shows "required_documents (category_rules lib a c d r) = required_documents r"
  using assms by (simp add: category_rules_def Let_def)

lemma validate_error:
  assumes "py_float lib (field_get (amount_key e) (PInt 0)) = Inl x"
  shows "validate_expense_data lib e =
     \<lparr>is_valid = False, violations = [''Error validating expense data: '' @ str_exn x],
      warnings = [], required_documents = [], policy_references = []\<rparr>"
  using assms by (simp add: validate_expense_data_def)

text \<open>Values of the example library that the examples below use.\<close>

lemma example_float_of_str_digits:
  "digits_value s = n \<Longrightarrow> s \<noteq> [] \<Longrightarrow> list_all is_digit s \<Longrightarrow> \<bar>n\<bar> < 2 ^ 53
     \<Longrightarrow> py_float example_lib (PStr s) = Inr (of_int n)"
  by (simp add: example_lib_def example_float_of_str_def round_binary64_int)

lemma example_strings:
  "lower ''meals'' = ''meals''"
  "lower ''Meals'' = ''meals''"
  "lower ''Lodging'' = ''lodging''"
  "lower ''lunch'' = ''lunch''"
  "lower ''hotel'' = ''hotel''"
  "digits_value ''150'' = 150"
  "list_all is_digit ''150''"
  by code_simp+

text \<open>
  Claim C3. For every record, with an amount that converts or not, \<^verbatim>\<open>is_valid\<close> is false
  exactly when the list of violations is not empty.
\<close>

theorem validate_is_valid_iff_no_violations:
  "(\<not> is_valid (validate_expense_data lib expense_data))
     = (violations (validate_expense_data lib expense_data) \<noteq> [])"
proof (cases "py_float lib (field_get (amount_key expense_data) (PInt 0))")
  case (Inl x)
  then show ?thesis by (simp add: validate_error)
next
  case (Inr a)
  let ?r0 = "\<lparr>is_valid = True, violations = [], warnings = [],
                required_documents = [], policy_references = []\<rparr>"
  have "is_valid ?r0 \<longleftrightarrow> violations ?r0 = []" by simp
  then have "is_valid (category_rules lib a c d ?r0)
      \<longleftrightarrow> violations (category_rules lib a c d ?r0) = []" for c d
    by (rule category_rules_valid_iff)
  then show ?thesis
    using Inr by (simp add: validate_expense_data_def Let_def)
qed

theorem validate_is_valid_iff_no_violations_witness:
  "\<not> is_valid (validate_expense_data example_lib (expense_of (PInt 400) ''Lodging'' ''hotel'' True))
   \<and> violations (validate_expense_data example_lib
         (expense_of (PInt 400) ''Lodging'' ''hotel'' True)) \<noteq> []
   \<and> is_valid (validate_expense_data example_lib (expense_of (PInt 40) ''meals'' ''lunch'' True))
   \<and> violations (validate_expense_data example_lib
         (expense_of (PInt 40) ''meals'' ''lunch'' True)) = []"
proof -
  have a: "\<not> is_valid (validate_expense_data example_lib
      (expense_of (PInt 400) ''Lodging'' ''hotel'' True))"
    by (simp add: validate_expense_data_def expense_of_def float_of_int_exact field_get_def
          category_rules_def is_weekend_def example_strings Let_def)
  have b: "is_valid (validate_expense_data example_lib
      (expense_of (PInt 40) ''meals'' ''lunch'' True))"
    by (simp add: validate_expense_data_def expense_of_def float_of_int_exact field_get_def
          category_rules_def is_weekend_def example_strings Let_def)
  show ?thesis
    using a b
      validate_is_valid_iff_no_violations [of example_lib
        "expense_of (PInt 400) ''Lodging'' ''hotel'' True"]
      validate_is_valid_iff_no_violations [of example_lib
        "expense_of (PInt 40) ''meals'' ''lunch'' True"]
    by blast
qed

text \<open>
  Claim C4, as the code has it. The rule compares \<^verbatim>\<open>float(amount)\<close>, not the amount: a
  record whose category is \<^verbatim>\<open>"meals"\<close> in any letter case, whose description (when the
  key is present) is a string, and whose amount \<^verbatim>\<open>float\<close> converts to a value above 100
  is invalid, has the violation about the daily limit, and cites the policy reference of
  Section 3.2.
\<close>

theorem validate_meals_over_daily_limit:
  assumes "lower (field_get (category_key expense_data) '''') = ''meals''"
    and "py_float lib (field_get (amount_key expense_data) (PInt 0)) = Inr a"
    and "100 < a"
  shows "\<not> is_valid (validate_expense_data lib expense_data)
       \<and> (''Meal expense of $'' @ float_repr lib a @ '' exceeds daily policy limit of $100'')
            \<in> set (violations (validate_expense_data lib expense_data))
       \<and> ''Section 3.2 - Meal Allowances''
            \<in> set (policy_references (validate_expense_data lib expense_data))"
  using assms
  by (simp add: validate_expense_data_def Let_def category_rules_meals_over)

theorem validate_meals_over_daily_limit_witness:
  "\<not> is_valid (validate_expense_data example_lib
        (expense_of (PStr ''150'') ''Meals'' ''Client dinner'' True))
   \<and> (''Meal expense of $'' @ float_repr example_lib 150
         @ '' exceeds daily policy limit of $100'')
        \<in> set (violations (validate_expense_data example_lib
              (expense_of (PStr ''150'') ''Meals'' ''Client dinner'' True)))
   \<and> ''Section 3.2 - Meal Allowances''
        \<in> set (policy_references (validate_expense_data example_lib
              (expense_of (PStr ''150'') ''Meals'' ''Client dinner'' True)))"
proof -
  let ?e = "expense_of (PStr ''150'') ''Meals'' ''Client dinner'' True"
  have c: "lower (field_get (category_key ?e) '''') = ''meals''"
    by (simp add: expense_of_def field_get_def example_strings)
  have "py_float example_lib (PStr ''150'') = Inr (of_int 150)"
    by (rule example_float_of_str_digits [OF example_strings(6) _ example_strings(7)]) simp_all
  then have a: "py_float example_lib (field_get (amount_key ?e) (PInt 0)) = Inr 150"
    by (simp add: expense_of_def field_get_def)
  have l: "(100 :: rat) < 150" by simp
  show ?thesis
    by (rule validate_meals_over_daily_limit [OF c a l])
qed

text \<open>
  The claim as stated asks only for an amount above 100. The integer \<open>2 ^ 1024\<close> is
  above 100, but \<^verbatim>\<open>float(2 ** 1024)\<close> raises \<^verbatim>\<open>OverflowError\<close>: the \<^verbatim>\<open>except\<close> branch
  returns the result with the one violation of the error and no policy reference, so
  nothing cites Section 3.2.
\<close>

theorem validate_meals_over_daily_limit_counterexample:
  "lower (field_get (category_key
        (expense_of (PInt (2 ^ 1024)) ''Meals'' ''Client dinner'' True)) '''') = ''meals''
   \<and> (100 :: int) < 2 ^ 1024
   \<and> validate_expense_data example_lib
        (expense_of (PInt (2 ^ 1024)) ''Meals'' ''Client dinner'' True)
     = \<lparr>is_valid = False,
        violations = [''Error validating expense data: int too large to convert to float''],
        warnings = [], required_documents = [], policy_references = []\<rparr>"
proof -
  have l: "lower ''Meals'' = ''meals''" by code_simp
  have "py_float example_lib (PInt (2 ^ 1024))
      = Inl (OverflowError ''int too large to convert to float'')"
    by (simp only: py_float.simps float_of_int_overflow)
  then show ?thesis
    by (simp add: validate_expense_data_def expense_of_def field_get_def l)
qed

text \<open>
  Claim C5. A record whose amount converts to a float of at most 25 and that has no
  receipt gets no required document at all, so none that starts with
  \<^verbatim>\<open>Receipt required\<close>: neither the meals rule nor the universal rule fires.
\<close>

theorem validate_small_amount_no_receipt_required:
  assumes "py_float lib (field_get (amount_key expense_data) (PInt 0)) = Inr a"
    and "a \<le> 25"
    and "\<not> field_get (has_receipt_key expense_data) False"
  shows "required_documents (validate_expense_data lib expense_data) = []
       \<and> \<not> list_ex (\<lambda>doc. startswith doc ''Receipt required'')
             (required_documents (validate_expense_data lib expense_data))"
  using assms
  by (simp add: validate_expense_data_def Let_def category_rules_small)

theorem validate_small_amount_no_receipt_required_witness:
  "required_documents (validate_expense_data example_lib
       (expense_of (PInt 25) ''meals'' ''lunch'' False)) = []
   \<and> \<not> list_ex (\<lambda>doc. startswith doc ''Receipt required'')
         (required_documents (validate_expense_data example_lib
            (expense_of (PInt 25) ''meals'' ''lunch'' False)))"
proof -
  let ?e = "expense_of (PInt 25) ''meals'' ''lunch'' False"
  have a: "py_float example_lib (field_get (amount_key ?e) (PInt 0)) = Inr 25"
    by (simp add: expense_of_def field_get_def float_of_int_exact)
  have l: "(25 :: rat) \<le> 25" by simp
  have h: "\<not> field_get (has_receipt_key ?e) False"
    by (simp add: expense_of_def field_get_def)
  show ?thesis
    by (rule validate_small_amount_no_receipt_required [OF a l h])
qed

text \<open>One unit more and both receipt rules fire.\<close>

lemma validate_receipt_rules_fire_above_threshold:
  "required_documents (validate_expense_data example_lib
       (expense_of (PInt 26) ''meals'' ''lunch'' False))
     = [''Receipt required for meals over $25'', ''Receipt required for all expenses over $25'']"
  by (simp add: validate_expense_data_def expense_of_def float_of_int_exact field_get_def
        category_rules_def is_weekend_def example_strings Let_def)

subsection \<open>The validator and the session state\<close>

text \<open>
  The only thing the validator does with its tool context comes after the rules: with
  the conversion of the amount and the update of the history both passing, the returned
  dictionary is the one of the call without a tool context.
\<close>

lemma validate_expense_data_ctx_cases:
  "validate_expense_data_ctx lib e tool_context now =
     (case py_float lib (field_get (amount_key e) (PInt 0)) of
        Inl x \<Rightarrow> (validate_expense_data lib e, tool_context)
      | Inr a \<Rightarrow>
          (case update_validation_history e (validate_expense_data lib e) tool_context now of
             Inl x \<Rightarrow>
               (\<lparr>is_valid = False,
                 violations = [''Error validating expense data: '' @ str_exn x],
                 warnings = [], required_documents = [], policy_references = []\<rparr>,
                tool_context)
           | Inr tool_context' \<Rightarrow> (validate_expense_data lib e, tool_context')))"
  by (simp add: validate_expense_data_ctx_def validate_expense_data_def Let_def
           split: sum.splits)

lemma update_validation_history_None:
  "update_validation_history e r None now = Inr None"
  by (simp add: update_validation_history_def)

lemma update_validation_history_again:
  assumes "update_validation_history e r tool_context now = Inr tool_context'"
  shows "\<exists>tool_context''. update_validation_history e r' tool_context' now' = Inr tool_context''"
  using assms
  by (auto simp: update_validation_history_def Let_def
           split: option.splits if_splits state_value.splits)

lemma update_validation_history_raises:
  assumes "update_validation_history e r tool_context now = Inl x"
  shows "update_validation_history e r' tool_context now' = Inl x"
  using assms
  by (auto simp: update_validation_history_def Let_def
           split: option.splits if_splits state_value.splits)

lemma validate_expense_data_no_context:
  "validate_expense_data_ctx lib e None now = (validate_expense_data lib e, None)"
  by (simp add: validate_expense_data_ctx_cases update_validation_history_None
           split: sum.splits)

text \<open>
  The session state is not left alone: with a tool context whose state is true, a call
  that passes appends one entry, stamped with the clock, to the history, and creates the
  history when the key is missing. A history that is not a list makes \<^verbatim>\<open>.append\<close> raise,
  and the result of the rules is replaced by the result of the \<^verbatim>\<open>except\<close> branch.
\<close>

lemma validate_appends_to_history:
  assumes "py_float lib (field_get (amount_key e) (PInt 0)) = Inr a"
    and "state_truthy (state tc)"
    and "validation_history_key (state tc) = Some (HistoryList entries)"
  shows "validate_expense_data_ctx lib e (Some tc) now =
     (validate_expense_data lib e,
      Some (tc\<lparr>state := (state tc)\<lparr>validation_history_key := Some (HistoryList (entries @
         [\<lparr>entry_timestamp = now, entry_expense = e,
           entry_is_valid = is_valid (validate_expense_data lib e),
           entry_violations_count = length (violations (validate_expense_data lib e))\<rparr>]))\<rparr>\<rparr>))"
  using assms
  by (simp add: validate_expense_data_ctx_cases update_validation_history_def Let_def)

lemma validate_creates_history:
  assumes "py_float lib (field_get (amount_key e) (PInt 0)) = Inr a"
    and "state_truthy (state tc)"
    and "validation_history_key (state tc) = None"
  shows "validate_expense_data_ctx lib e (Some tc) now =
     (validate_expense_data lib e,
      Some (tc\<lparr>state := (state tc)\<lparr>validation_history_key := Some (HistoryList
         [\<lparr>entry_timestamp = now, entry_expense = e,
           entry_is_valid = is_valid (validate_expense_data lib e),
           entry_violations_count = length (violations (validate_expense_data lib e))\<rparr>])\<rparr>\<rparr>))"
  using assms
  by (simp add: validate_expense_data_ctx_cases update_validation_history_def Let_def)

lemma validate_history_not_a_list:
  assumes "py_float lib (field_get (amount_key e) (PInt 0)) = Inr a"
    and "state_truthy (state tc)"
    and "validation_history_key (state tc) = Some (Scalar v)"
  shows "validate_expense_data_ctx lib e (Some tc) now =
     (\<lparr>is_valid = False,
       violations = [''Error validating expense data: '' @ quoted (type_name v)
                     @ '' object has no attribute '' @ quoted ''append''],
       warnings = [], required_documents = [], policy_references = []\<rparr>,
      Some tc)"
  using assms
  by (simp add: validate_expense_data_ctx_cases update_validation_history_def Let_def)

text \<open>
  Claim C9. Called with no tool context, the validator returns the same dictionary at
  every reading of the clock, the one computed from the record alone, and there is still
  no tool context afterwards: two calls on the same record return identical results,
  field by field and in the same order. The same holds for two successive calls that
  share a tool context, the second one running on the session state that the first one
  left (with one more entry in the history): both return the same dictionary.
\<close>

theorem validate_deterministic:
  "validate_expense_data_ctx lib expense_data None now
     = (validate_expense_data lib expense_data, None)
   \<and> validate_expense_data_ctx lib expense_data None now'
     = validate_expense_data_ctx lib expense_data None now
   \<and> fst (validate_expense_data_ctx lib expense_data
             (snd (validate_expense_data_ctx lib expense_data tool_context now)) now')
     = fst (validate_expense_data_ctx lib expense_data tool_context now)"
proof (intro conjI)
  show "validate_expense_data_ctx lib expense_data None now
     = (validate_expense_data lib expense_data, None)"
    by (rule validate_expense_data_no_context)
  show "validate_expense_data_ctx lib expense_data None now'
     = validate_expense_data_ctx lib expense_data None now"
    by (simp only: validate_expense_data_no_context)
  let ?r = "validate_expense_data lib expense_data"
  show "fst (validate_expense_data_ctx lib expense_data
             (snd (validate_expense_data_ctx lib expense_data tool_context now)) now')
     = fst (validate_expense_data_ctx lib expense_data tool_context now)"
  proof (cases "py_float lib (field_get (amount_key expense_data) (PInt 0))")
    case (Inl x)
    then show ?thesis by (simp add: validate_expense_data_ctx_cases)
  next
    case (Inr a)
    show ?thesis
    proof (cases "update_validation_history expense_data ?r tool_context now")
      case (Inl x)
      then have "update_validation_history expense_data ?r tool_context now' = Inl x"
        by (rule update_validation_history_raises)
      then show ?thesis using Inr Inl by (simp add: validate_expense_data_ctx_cases)
    next
      case 2: (Inr tool_context')
      obtain tool_context'' where
        "update_validation_history expense_data ?r tool_context' now' = Inr tool_context''"
        using update_validation_history_again [OF 2] by blast
      then show ?thesis using Inr 2 by (simp add: validate_expense_data_ctx_cases)
    qed
  qed
qed

text \<open>
  The witness: a lodging record of 400, validated on a Saturday morning and again a
  minute later, without a tool context and with a session whose history is still missing.
\<close>

theorem validate_deterministic_witness:
  "validate_expense_data_ctx example_lib (expense_of (PInt 400) ''Lodging'' ''hotel'' True)
       None ''2024-01-06T10:00:00''
     = (validate_expense_data example_lib (expense_of (PInt 400) ''Lodging'' ''hotel'' True),
        None)
   \<and> validate_expense_data_ctx example_lib (expense_of (PInt 400) ''Lodging'' ''hotel'' True)
       None ''2024-01-06T10:01:00''
     = validate_expense_data_ctx example_lib (expense_of (PInt 400) ''Lodging'' ''hotel'' True)
         None ''2024-01-06T10:00:00''
   \<and> fst (validate_expense_data_ctx example_lib
             (expense_of (PInt 400) ''Lodging'' ''hotel'' True)
             (snd (validate_expense_data_ctx example_lib
                     (expense_of (PInt 400) ''Lodging'' ''hotel'' True)
                     (Some \<lparr>state = \<lparr>state_truthy = True, validation_history_key = None\<rparr>\<rparr>)
                     ''2024-01-06T10:00:00''))
             ''2024-01-06T10:01:00'')
     = fst (validate_expense_data_ctx example_lib
              (expense_of (PInt 400) ''Lodging'' ''hotel'' True)
              (Some \<lparr>state = \<lparr>state_truthy = True, validation_history_key = None\<rparr>\<rparr>)
              ''2024-01-06T10:00:00'')"
  by (rule validate_deterministic)



section \<open>Properties of the aggregator\<close>

subsection \<open>Dictionaries as maps\<close>

lemma map_of_dict_set: "map_of (dict_set d k v) = (map_of d)(k \<mapsto> v)"
  by (induction d) (auto simp: fun_eq_iff)

lemma dict_get_map_of:
  "dict_get d k dflt = (case map_of d k of None \<Rightarrow> dflt | Some v \<Rightarrow> v)"
  by (induction d) auto

lemma dict_has_map_of: "dict_has d k \<longleftrightarrow> map_of d k \<noteq> None"
  by (induction d) (auto simp: dict_has_def)

lemma map_of_track_category:
  "map_of (track_category c a entry cats) =
     (map_of cats)(c \<mapsto>
        (case map_of cats c of None \<Rightarrow> new_category_data | Some b \<Rightarrow> b)
          \<lparr>cat_count := cat_count (case map_of cats c of None \<Rightarrow> new_category_data | Some b \<Rightarrow> b) + 1,
           cat_total := float_add (cat_total (case map_of cats c of None \<Rightarrow> new_category_data | Some b \<Rightarrow> b)) a,
           cat_expenses := cat_expenses (case map_of cats c of None \<Rightarrow> new_category_data | Some b \<Rightarrow> b) @ [entry]\<rparr>)"
  by (cases "map_of cats c")
     (simp_all add: track_category_def Let_def map_of_dict_set dict_get_map_of dict_has_map_of)

lemma count_in_track_category:
  "count_in (track_category c a entry cats) c' =
     (if c' = c then Some (case count_in cats c of None \<Rightarrow> 1 | Some n \<Rightarrow> n + 1)
      else count_in cats c')"
  by (cases "map_of cats c")
     (simp_all add: count_in_def map_of_track_category new_category_data_def)

subsection \<open>What the loop computes\<close>

lemma process_expense_bad:
  assumes "\<not> converts lib e"
  shows "categories (fst (process_expense lib i e st)) = categories (fst st)"
    and "snd (process_expense lib i e st) = snd st"
    and "\<not> ready_for_submission (compliance_status (fst (process_expense lib i e st)))"
    and "expense_count (fst (process_expense lib i e st)) = expense_count (fst st)"
  using assms
  by (simp_all add: process_expense_def converts_def Let_def split: sum.splits)

lemma validate_valid_converts:
  "is_valid (validate_expense_data lib e) \<Longrightarrow> converts lib e"
  by (auto simp: validate_expense_data_def converts_def split: sum.splits)

lemma process_expense_good:
  assumes "converts lib e"
  shows "\<exists>a entry. categories (fst (process_expense lib i e st))
            = track_category (category_of e) a entry (categories (fst st))"
    and "snd (process_expense lib i e st)
          = snd st @ (if field_get (date_key e) '''' \<noteq> [] then [field_get (date_key e) ''''] else [])"
    and "ready_for_submission (compliance_status (fst (process_expense lib i e st)))
          = (ready_for_submission (compliance_status (fst st))
             \<and> is_valid (validate_expense_data lib e))"
    and "expense_count (fst (process_expense lib i e st)) = expense_count (fst st)"
proof -
  obtain a where a: "py_float lib (field_get (amount_key e) (PInt 0)) = Inr a"
    using assms by (auto simp: converts_def split: sum.splits)
  show "\<exists>a entry. categories (fst (process_expense lib i e st))
            = track_category (category_of e) a entry (categories (fst st))"
    by (simp add: process_expense_def a Let_def category_of_def) blast
  show "snd (process_expense lib i e st)
          = snd st @ (if field_get (date_key e) '''' \<noteq> [] then [field_get (date_key e) ''''] else [])"
    by (simp add: process_expense_def a Let_def)
  show "ready_for_submission (compliance_status (fst (process_expense lib i e st)))
          = (ready_for_submission (compliance_status (fst st))
             \<and> is_valid (validate_expense_data lib e))"
    by (simp add: process_expense_def a Let_def)
  show "expense_count (fst (process_expense lib i e st)) = expense_count (fst st)"
    by (simp add: process_expense_def a Let_def)
qed

lemma process_expense_ready:
  "ready_for_submission (compliance_status (fst (process_expense lib i e st)))
     = (ready_for_submission (compliance_status (fst st))
        \<and> is_valid (validate_expense_data lib e))"
proof (cases "converts lib e")
  case True
  then show ?thesis by (rule process_expense_good(3))
next
  case False
  then have "\<not> is_valid (validate_expense_data lib e)"
    using validate_valid_converts by blast
  then show ?thesis using process_expense_bad(3) [OF False] by simp
qed

lemma process_expense_count_in:
  "count_in (categories (fst (process_expense lib i e st))) c =
     (if converts lib e \<and> category_of e = c
      then Some (case count_in (categories (fst st)) c of None \<Rightarrow> 1 | Some n \<Rightarrow> n + 1)
      else count_in (categories (fst st)) c)"
proof (cases "converts lib e")
  case True
  then obtain a entry where "categories (fst (process_expense lib i e st))
            = track_category (category_of e) a entry (categories (fst st))"
    using process_expense_good(1) by blast
  then show ?thesis using True by (simp add: count_in_track_category)
next
  case False
  then show ?thesis by (simp add: process_expense_bad(1))
qed

lemma process_expense_dates:
  "snd (process_expense lib i e st)
     = snd st @ (if converts lib e \<and> field_get (date_key e) '''' \<noteq> []
                 then [field_get (date_key e) ''''] else [])"
  by (cases "converts lib e") (simp_all add: process_expense_good(2) process_expense_bad(2))

lemma process_expense_expense_count:
  "expense_count (fst (process_expense lib i e st)) = expense_count (fst st)"
  by (cases "converts lib e") (simp_all add: process_expense_good(4) process_expense_bad(4))

lemma process_expenses_ready:
  "ready_for_submission (compliance_status (fst (process_expenses lib i es st)))
     = (ready_for_submission (compliance_status (fst st))
        \<and> (\<forall>e \<in> set es. is_valid (validate_expense_data lib e)))"
  by (induction es arbitrary: i st) (auto simp: process_expense_ready)

lemma process_expenses_dates:
  "snd (process_expenses lib i es st)
     = snd st @ map (\<lambda>e. field_get (date_key e) '''')
                  (filter (\<lambda>e. converts lib e \<and> field_get (date_key e) '''' \<noteq> []) es)"
  by (induction es arbitrary: i st) (simp_all add: process_expense_dates)

lemma process_expenses_expense_count:
  "expense_count (fst (process_expenses lib i es st)) = expense_count (fst st)"
  by (induction es arbitrary: i st) (simp_all add: process_expense_expense_count)

lemma process_expenses_count_in:
  "count_in (categories (fst (process_expenses lib i es st))) c
     = plus_count (count_in (categories (fst st)) c)
         (length (filter (\<lambda>e. converts lib e \<and> category_of e = c) es))"
proof (induction es arbitrary: i st)
  case Nil
  show ?case by (simp add: plus_count_def)
next
  case (Cons e es)
  show ?case
    by (simp add: Cons.IH process_expense_count_in plus_count_def split: option.splits)
qed

subsection \<open>The statements after the loop\<close>

lemma amounts_of_fails_iff:
  "(\<exists>x. amounts_of lib es = Inl x) \<longleftrightarrow> (\<exists>e \<in> set es. \<not> converts lib e)"
proof (induction es)
  case Nil
  show ?case by simp
next
  case (Cons e es)
  show ?case
  proof (cases "py_float lib (field_get (amount_key e) (PInt 0))")
    case (Inl x)
    then show ?thesis by (auto simp: converts_def)
  next
    case (Inr a)
    then have c: "converts lib e" by (simp add: converts_def)
    have "(\<exists>x. amounts_of lib (e # es) = Inl x) \<longleftrightarrow> (\<exists>x. amounts_of lib es = Inl x)"
      using Inr by (cases "amounts_of lib es") simp_all
    then show ?thesis using Cons.IH c by simp
  qed
qed

lemma date_range_of_mset:
  assumes "mset d1 = mset d2"
  shows "date_range_of lib d1 = date_range_of lib d2"
proof -
  have s: "sort d1 = sort d2"
    using assms by (metis properties_for_sort sorted_sort mset_sort)
  have "d1 = [] \<longleftrightarrow> d2 = []"
    using assms by (metis mset_zero_iff)
  then show ?thesis by (simp add: date_range_of_def s)
qed

lemma count_in_with_average:
  "count_in (map (\<lambda>kv. (fst kv, with_average (snd kv))) cats) c = count_in cats c"
proof -
  have "map_of (map (\<lambda>kv. (fst kv, with_average (snd kv))) cats) c
          = map_option with_average (map_of cats c)"
    by (induction cats) auto
  moreover have "cat_count (with_average b) = cat_count b" for b
    by (simp add: with_average_def)
  ultimately show ?thesis
    by (simp add: count_in_def option.map_comp comp_def)
qed

lemma finish_summary_Inr:
  assumes "finish_summary lib es st = Inr s"
  shows "ready_for_submission (compliance_status s)
           = ready_for_submission (compliance_status (fst st))"
    and "count_in (categories s) c = count_in (categories (fst st)) c"
    and "expense_count s = expense_count (fst st)"
    and "total_amount s = total_amount (fst st)"
  using assms
  by (auto simp: finish_summary_def Let_def count_in_with_average
           split: sum.splits if_splits)

lemma finish_summary_fails_iff:
  "(\<exists>x. finish_summary lib es st = Inl x) \<longleftrightarrow>
     ((\<exists>x. date_range_of lib (snd st) = Inl x)
      \<or> (0 < expense_count (fst st) \<and> (\<exists>x. amounts_of lib es = Inl x)))"
  by (auto simp: finish_summary_def Let_def statistics_of_def split: sum.splits)

lemma finish_summary_amount_error:
  assumes "date_range_of lib (snd st) = Inr dr" and "0 < expense_count (fst st)"
    and "amounts_of lib es = Inl x"
  shows "finish_summary lib es st = Inl x"
  using assms by (simp add: finish_summary_def statistics_of_def Let_def)

lemma generate_cases:
  "(\<exists>x. finish_summary lib es (process_expenses lib 0 es (initial_summary es, [])) = Inl x
        \<and> generate_expense_summary lib es = error_summary x)
   \<or> (\<exists>s. finish_summary lib es (process_expenses lib 0 es (initial_summary es, [])) = Inr s
        \<and> generate_expense_summary lib es = s)"
  by (cases "finish_summary lib es (process_expenses lib 0 es (initial_summary es, []))")
     (simp_all add: generate_expense_summary_def)

text \<open>
  Whether the statements after the loop raise depends on the multiset of the records
  only.
\<close>

lemma loop_fails_mset:
  assumes "mset xs = mset ys"
  shows "(\<exists>x. finish_summary lib xs (process_expenses lib 0 xs (initial_summary xs, [])) = Inl x)
     \<longleftrightarrow> (\<exists>x. finish_summary lib ys (process_expenses lib 0 ys (initial_summary ys, [])) = Inl x)"
proof -
  have len: "length xs = length ys" using assms by (rule mset_eq_length)
  have st: "set xs = set ys" using assms by (rule mset_eq_setD)
  let ?d = "\<lambda>es. map (\<lambda>e. field_get (date_key e) '''')
                  (filter (\<lambda>e. converts lib e \<and> field_get (date_key e) '''' \<noteq> []) es)"
  have "mset (?d xs) = mset (?d ys)"
    by (simp add: assms)
  then have dr: "date_range_of lib (?d xs) = date_range_of lib (?d ys)"
    by (rule date_range_of_mset)
  show ?thesis
    unfolding finish_summary_fails_iff amounts_of_fails_iff
    by (simp add: process_expenses_dates process_expenses_expense_count initial_summary_def
          dr len st)
qed

subsection \<open>The summary of a batch\<close>

lemma generate_fails_on_bad_amount:
  assumes "e \<in> set es" and "\<not> converts lib e"
  shows "\<exists>x. generate_expense_summary lib es = error_summary x"
proof -
  have "0 < length es" using assms(1) by (cases es) auto
  moreover have "\<exists>x. amounts_of lib es = Inl x"
    using assms by (auto simp: amounts_of_fails_iff)
  ultimately have "\<exists>x. finish_summary lib es
      (process_expenses lib 0 es (initial_summary es, [])) = Inl x"
    unfolding finish_summary_fails_iff
    by (simp add: process_expenses_expense_count initial_summary_def)
  then show ?thesis using generate_cases [of lib es] by auto
qed

text \<open>
  The flag, the category keys with their counts and the number of records do not depend
  on the order of the records.
\<close>

lemma generate_flags_permutation:
  assumes "mset expenses' = mset expenses"
  shows "ready_for_submission (compliance_status (generate_expense_summary lib expenses'))
           = ready_for_submission (compliance_status (generate_expense_summary lib expenses))
       \<and> (\<forall>c. count_in (categories (generate_expense_summary lib expenses')) c
                = count_in (categories (generate_expense_summary lib expenses)) c)
       \<and> expense_count (generate_expense_summary lib expenses')
           = expense_count (generate_expense_summary lib expenses)"
proof -
  let ?loop = "\<lambda>es. process_expenses lib 0 es (initial_summary es, [])"
  have len: "length expenses' = length expenses" using assms by (rule mset_eq_length)
  have st: "set expenses' = set expenses" using assms by (rule mset_eq_setD)
  have fl: "length (filter P expenses') = length (filter P expenses)" for P
    using assms by (metis mset_filter size_mset)
  show ?thesis
  proof (cases "\<exists>x. finish_summary lib expenses (?loop expenses) = Inl x")
    case True
    then obtain x where "generate_expense_summary lib expenses = error_summary x"
      using generate_cases [of lib expenses] by auto
    moreover have "\<exists>x. finish_summary lib expenses' (?loop expenses') = Inl x"
      using True loop_fails_mset [OF assms, of lib] by simp
    then obtain y where "generate_expense_summary lib expenses' = error_summary y"
      using generate_cases [of lib expenses'] by auto
    ultimately show ?thesis by (simp add: error_summary_def)
  next
    case False
    then obtain s where s: "finish_summary lib expenses (?loop expenses) = Inr s"
      and g: "generate_expense_summary lib expenses = s"
      using generate_cases [of lib expenses] by auto
    have "\<not> (\<exists>x. finish_summary lib expenses' (?loop expenses') = Inl x)"
      using False loop_fails_mset [OF assms, of lib] by simp
    then obtain s' where s': "finish_summary lib expenses' (?loop expenses') = Inr s'"
      and g': "generate_expense_summary lib expenses' = s'"
      using generate_cases [of lib expenses'] by auto
    have "ready_for_submission (compliance_status s')
            = ready_for_submission (compliance_status s)"
      unfolding finish_summary_Inr(1) [OF s] finish_summary_Inr(1) [OF s']
        process_expenses_ready st
      by (simp add: initial_summary_def)
    moreover have "count_in (categories s') c = count_in (categories s) c" for c
      unfolding finish_summary_Inr(2) [OF s] finish_summary_Inr(2) [OF s']
        process_expenses_count_in fl
      by (simp add: initial_summary_def)
    moreover have "expense_count s' = expense_count s"
      unfolding finish_summary_Inr(3) [OF s] finish_summary_Inr(3) [OF s']
        process_expenses_expense_count
      by (simp add: initial_summary_def len)
    ultimately show ?thesis unfolding g g' by blast
  qed
qed

subsection \<open>The totals are float sums in input order\<close>

lemma process_expense_total:
  "total_amount (fst (process_expense lib i e st))
     = (if converts lib e then float_add (total_amount (fst st)) (amount_value lib e)
        else total_amount (fst st))"
  by (simp add: process_expense_def converts_def amount_value_def Let_def split: sum.splits)

lemma process_expenses_total:
  "total_amount (fst (process_expenses lib i es st))
     = foldl float_add (total_amount (fst st)) (converted_amounts lib es)"
  by (induction es arbitrary: i st)
     (simp_all add: process_expense_total converted_amounts_def)

lemma total_in_track_category:
  "total_in (track_category c a entry cats) c' =
     (if c' = c
      then Some (float_add (case total_in cats c of None \<Rightarrow> 0 | Some t \<Rightarrow> t) a)
      else total_in cats c')"
  by (cases "map_of cats c")
     (simp_all add: total_in_def map_of_track_category new_category_data_def)

lemma process_expense_total_in:
  "total_in (categories (fst (process_expense lib i e st))) c =
     (if converts lib e \<and> category_of e = c
      then Some (float_add (case total_in (categories (fst st)) c of None \<Rightarrow> 0 | Some t \<Rightarrow> t)
                   (amount_value lib e))
      else total_in (categories (fst st)) c)"
proof (cases "py_float lib (field_get (amount_key e) (PInt 0))")
  case (Inl x)
  then show ?thesis
    by (simp add: process_expense_def converts_def Let_def)
next
  case (Inr a)
  then show ?thesis
    by (simp add: process_expense_def converts_def amount_value_def Let_def
          total_in_track_category category_of_def)
qed

lemma process_expenses_total_in:
  "total_in (categories (fst (process_expenses lib i es st))) c
     = plus_total (total_in (categories (fst st)) c)
         (converted_amounts lib (filter (\<lambda>e. category_of e = c) es))"
proof (induction es arbitrary: i st)
  case Nil
  show ?case by (simp add: plus_total_def converted_amounts_def)
next
  case (Cons e es)
  show ?case
    by (simp add: Cons.IH process_expense_total_in plus_total_def converted_amounts_def
          split: option.splits)
qed

lemma total_in_with_average:
  "total_in (map (\<lambda>kv. (fst kv, with_average (snd kv))) cats) c = total_in cats c"
proof -
  have "map_of (map (\<lambda>kv. (fst kv, with_average (snd kv))) cats) c
          = map_option with_average (map_of cats c)"
    by (induction cats) auto
  moreover have "cat_total (with_average b) = cat_total b" for b
    by (simp add: with_average_def)
  ultimately show ?thesis
    by (simp add: total_in_def option.map_comp comp_def)
qed

lemma finish_summary_total_in:
  assumes "finish_summary lib es st = Inr s"
  shows "total_in (categories s) c = total_in (categories (fst st)) c"
  using assms
  by (auto simp: finish_summary_def Let_def total_in_with_average
           split: sum.splits if_splits)

text \<open>
  When nothing after the loop raises, the totals of the summary are the float sums of the
  converted amounts in input order, over all records and over the records of a category.
\<close>

lemma generate_totals:
  assumes "\<not> (\<exists>x. finish_summary lib es (process_expenses lib 0 es (initial_summary es, [])) = Inl x)"
  shows "total_amount (generate_expense_summary lib es)
           = foldl float_add 0 (converted_amounts lib es)"
    and "total_in (categories (generate_expense_summary lib es)) c
           = plus_total None (converted_amounts lib (filter (\<lambda>e. category_of e = c) es))"
proof -
  obtain s where s: "finish_summary lib es (process_expenses lib 0 es (initial_summary es, [])) = Inr s"
    and g: "generate_expense_summary lib es = s"
    using assms generate_cases [of lib es] by auto
  show "total_amount (generate_expense_summary lib es)
           = foldl float_add 0 (converted_amounts lib es)"
    unfolding g finish_summary_Inr(4) [OF s] process_expenses_total
    by (simp add: initial_summary_def)
  show "total_in (categories (generate_expense_summary lib es)) c
           = plus_total None (converted_amounts lib (filter (\<lambda>e. category_of e = c) es))"
    unfolding g finish_summary_total_in [OF s] process_expenses_total_in
    by (simp add: initial_summary_def total_in_def)
qed

lemma generate_succeeds:
  assumes "\<forall>e \<in> set es. converts lib e \<and> date_key e = None"
  shows "\<not> (\<exists>x. finish_summary lib es (process_expenses lib 0 es (initial_summary es, [])) = Inl x)"
proof -
  have "filter (\<lambda>e. converts lib e \<and> field_get (date_key e) [] \<noteq> []) es = []"
    using assms by (auto simp: filter_empty_conv field_get_def)
  then have "snd (process_expenses lib 0 es (initial_summary es, [])) = []"
    by (simp add: process_expenses_dates)
  moreover have "\<not> (\<exists>x. amounts_of lib es = Inl x)"
    using assms by (simp add: amounts_of_fails_iff)
  ultimately show ?thesis
    unfolding finish_summary_fails_iff by (simp add: date_range_of_def)
qed

subsection \<open>Whole amounts add up without rounding\<close>

lemma is_whole_of_int: "is_whole (of_int n)"
  by (simp add: is_whole_def)

lemma is_whole_cases:
  assumes "is_whole x"
  obtains n where "x = of_int n"
  using assms by (metis is_whole_def)

lemma float_add_whole:
  assumes "is_whole x" and "is_whole y" and "\<bar>x + y\<bar> < 2 ^ 53"
  shows "float_add x y = x + y" and "is_whole (x + y)"
proof -
  obtain a where a: "x = of_int a" using assms(1) by (rule is_whole_cases)
  obtain b where b: "y = of_int b" using assms(2) by (rule is_whole_cases)
  have "(of_int \<bar>a + b\<bar> :: rat) < of_int (2 ^ 53)"
    using assms(3) by (simp add: a b)
  then have "\<bar>a + b\<bar> < 2 ^ 53" by (simp only: of_int_less_iff)
  then show "float_add x y = x + y"
    unfolding a b by (simp add: float_add_int)
  show "is_whole (x + y)"
    unfolding a b by (metis is_whole_of_int of_int_add)
qed

lemma foldl_float_add_exact:
  assumes "list_all is_whole xs" and "is_whole t"
    and "\<bar>t\<bar> + sum_list (map abs xs) < 2 ^ 53"
  shows "foldl float_add t xs = t + sum_list xs"
  using assms
proof (induction xs arbitrary: t)
  case Nil
  show ?case by simp
next
  case (Cons x xs)
  have nn: "0 \<le> sum_list (map abs xs)" by (rule sum_list_nonneg) auto
  have b: "\<bar>t + x\<bar> < 2 ^ 53" using Cons.prems(3) nn by simp
  have w: "is_whole x" using Cons.prems(1) by simp
  have e: "float_add t x = t + x" and w': "is_whole (t + x)"
    using float_add_whole [OF Cons.prems(2) w b] by simp_all
  have "foldl float_add (t + x) xs = (t + x) + sum_list xs"
  proof (rule Cons.IH)
    show "list_all is_whole xs" using Cons.prems(1) by simp
    show "is_whole (t + x)" by (rule w')
    show "\<bar>t + x\<bar> + sum_list (map abs xs) < 2 ^ 53" using Cons.prems(3) by simp
  qed
  then show ?case by (simp add: e)
qed

lemma sum_list_filter_le:
  assumes "\<And>x. (0::rat) \<le> g x"
  shows "sum_list (map g (filter P xs)) \<le> sum_list (map g xs)"
proof (induction xs)
  case Nil
  show ?case by simp
next
  case (Cons x xs)
  then show ?case using assms [of x] by simp
qed

lemma converted_amounts_exact:
  assumes "whole_amounts lib es"
  shows "foldl float_add 0 (converted_amounts lib (filter Q es))
           = sum_list (converted_amounts lib (filter Q es))"
proof -
  have all: "list_all (\<lambda>e. is_whole (amount_value lib e)) es"
    and bound: "sum_list (map (\<lambda>e. \<bar>amount_value lib e\<bar>) es) < 2 ^ 53"
    using assms by (simp_all add: whole_amounts_def)
  have w: "list_all is_whole (converted_amounts lib (filter Q es))"
    using all by (auto simp: converted_amounts_def list_all_iff)
  have "map abs (converted_amounts lib (filter Q es))
          = map (\<lambda>e. \<bar>amount_value lib e\<bar>) (filter (\<lambda>e. converts lib e \<and> Q e) es)"
    by (simp add: converted_amounts_def comp_def conj_commute)
  then have "sum_list (map abs (converted_amounts lib (filter Q es)))
          \<le> sum_list (map (\<lambda>e. \<bar>amount_value lib e\<bar>) es)"
    by (simp only: sum_list_filter_le abs_ge_zero)
  then have b: "\<bar>0 :: rat\<bar> + sum_list (map abs (converted_amounts lib (filter Q es))) < 2 ^ 53"
    using bound by simp
  have "is_whole 0" by (simp add: is_whole_def)
  then show ?thesis
    using foldl_float_add_exact [OF w _ b] by simp
qed

lemma converted_amounts_mset:
  assumes "mset xs = mset ys"
  shows "sum_list (converted_amounts lib (filter Q xs))
           = sum_list (converted_amounts lib (filter Q ys))"
    and "converted_amounts lib (filter Q xs) = [] \<longleftrightarrow> converted_amounts lib (filter Q ys) = []"
proof -
  have m: "mset (converted_amounts lib (filter Q xs)) = mset (converted_amounts lib (filter Q ys))"
    by (simp add: converted_amounts_def assms)
  show "sum_list (converted_amounts lib (filter Q xs))
           = sum_list (converted_amounts lib (filter Q ys))"
    using m by (metis sum_mset_sum_list)
  show "converted_amounts lib (filter Q xs) = [] \<longleftrightarrow> converted_amounts lib (filter Q ys) = []"
    using m by (metis mset_zero_iff)
qed

lemma whole_amounts_mset:
  assumes "mset xs = mset ys"
  shows "whole_amounts lib xs \<longleftrightarrow> whole_amounts lib ys"
proof -
  have "set xs = set ys" using assms by (rule mset_eq_setD)
  moreover have "mset (map (\<lambda>e. \<bar>amount_value lib e\<bar>) xs) = mset (map (\<lambda>e. \<bar>amount_value lib e\<bar>) ys)"
    by (simp add: assms)
  then have "sum_list (map (\<lambda>e. \<bar>amount_value lib e\<bar>) xs) = sum_list (map (\<lambda>e. \<bar>amount_value lib e\<bar>) ys)"
    by (metis sum_mset_sum_list)
  ultimately show ?thesis by (simp add: whole_amounts_def list_all_iff)
qed

lemma filter_True_id: "filter (\<lambda>e. True) es = es"
  by simp

text \<open>For whole amounts the totals are permutation invariant.\<close>

lemma generate_totals_permutation:
  assumes "mset xs = mset ys" and "whole_amounts lib ys"
  shows "total_amount (generate_expense_summary lib xs)
           = total_amount (generate_expense_summary lib ys)"
    and "total_in (categories (generate_expense_summary lib xs)) c
           = total_in (categories (generate_expense_summary lib ys)) c"
proof -
  let ?fails = "\<lambda>es. \<exists>x. finish_summary lib es
      (process_expenses lib 0 es (initial_summary es, [])) = Inl x"
  have wx: "whole_amounts lib xs" using assms whole_amounts_mset by blast
  have both: "total_amount (generate_expense_summary lib xs)
           = total_amount (generate_expense_summary lib ys)
      \<and> total_in (categories (generate_expense_summary lib xs)) c
           = total_in (categories (generate_expense_summary lib ys)) c"
  proof (cases "?fails ys")
    case True
    then obtain y where "generate_expense_summary lib ys = error_summary y"
      using generate_cases [of lib ys] by auto
    moreover have "?fails xs" using True loop_fails_mset [OF assms(1), of lib] by simp
    then obtain x where "generate_expense_summary lib xs = error_summary x"
      using generate_cases [of lib xs] by auto
    ultimately show ?thesis by (simp add: error_summary_def)
  next
    case False
    then have fx: "\<not> ?fails xs" using loop_fails_mset [OF assms(1), of lib] by simp
    have t: "foldl float_add 0 (converted_amounts lib xs)
        = foldl float_add 0 (converted_amounts lib ys)"
      using converted_amounts_exact [OF wx, of "\<lambda>e. True"]
        converted_amounts_exact [OF assms(2), of "\<lambda>e. True"]
        converted_amounts_mset(1) [OF assms(1), of lib "\<lambda>e. True"]
      by (simp only: filter_True_id)
    have c: "plus_total None (converted_amounts lib (filter (\<lambda>e. category_of e = c) xs))
        = plus_total None (converted_amounts lib (filter (\<lambda>e. category_of e = c) ys))"
      using converted_amounts_exact [OF wx, of "\<lambda>e. category_of e = c"]
        converted_amounts_exact [OF assms(2), of "\<lambda>e. category_of e = c"]
        converted_amounts_mset [OF assms(1), of lib "\<lambda>e. category_of e = c"]
      by (simp add: plus_total_def)
    show ?thesis
      unfolding generate_totals [OF fx] generate_totals [OF False] using t c by simp
  qed
  show "total_amount (generate_expense_summary lib xs)
           = total_amount (generate_expense_summary lib ys)"
    using both by (rule conjunct1)
  show "total_in (categories (generate_expense_summary lib xs)) c
           = total_in (categories (generate_expense_summary lib ys)) c"
    using both by (rule conjunct2)
qed

subsection \<open>The claims about the aggregator\<close>

text \<open>Values of the example library on the records of the examples.\<close>

lemma example_amounts:
  "py_float example_lib (field_get (amount_key (expense_of (PInt 50) c d r)) (PInt 0)) = Inr 50"
  "py_float example_lib (field_get (amount_key (expense_of (PInt 400) c d r)) (PInt 0)) = Inr 400"
  "py_float example_lib (field_get (amount_key (expense_of (PStr ''abc'') c d r)) (PInt 0))
     = Inl (ValueError (''could not convert string to float: '' @ quoted ''abc''))"
  "py_float example_lib (field_get (amount_key (expense_of (PFloat x) c d r)) (PInt 0)) = Inr x"
  by (simp_all add: expense_of_def field_get_def float_of_int_exact example_lib_def
        example_float_of_str_def is_digit_def)

lemma example_tags:
  "expense_tag 0 = ''Expense #1: ''"
  "expense_tag 1 = ''Expense #2: ''"
  "expense_tag (Suc 0) = ''Expense #2: ''"
  "lower ''business lunch'' = ''business lunch''"
  by code_simp+

lemma example_validate_lunch:
  "validate_expense_data example_lib (expense_of (PInt 50) ''meals'' ''business lunch'' True)
     = \<lparr>is_valid = True, violations = [], warnings = [],
        required_documents = [''Receipt required for meals over $25''],
        policy_references = []\<rparr>"
  by (simp add: validate_expense_data_def example_amounts)
     (simp add: expense_of_def field_get_def category_rules_def is_weekend_def
        example_strings example_tags Let_def)

lemma example_loop:
  "process_expenses example_lib 0
     [expense_of (PInt 50) ''meals'' ''business lunch'' True,
      expense_of (PStr ''abc'') ''lodging'' ''hotel'' True]
     (initial_summary
        [expense_of (PInt 50) ''meals'' ''business lunch'' True,
         expense_of (PStr ''abc'') ''lodging'' ''hotel'' True], [])
   = (\<lparr>total_amount = 50, expense_count = 2,
       categories =
         [(''meals'',
           \<lparr>cat_count = 1, cat_total = 50, cat_average = 0,
            cat_expenses = [\<lparr>entry_amount = 50, entry_description = ''business lunch'',
                              entry_date = ''''\<rparr>]\<rparr>)],
       compliance_status =
         \<lparr>total_violations = 0,
          cs_violations = [''Expense #2: Error processing expense - ''
                           @ ''could not convert string to float: '' @ quoted ''abc''],
          cs_warnings = [], ready_for_submission = False\<rparr>,
       sum_required_documents = [''Receipt required for meals over $25''],
       sum_policy_references = [], date_range = None, statistics = None\<rparr>, [])"
proof -
  have f: "float_add 0 50 = 50" using float_add_int [of 0 50] by simp
  show ?thesis
    by (simp add: process_expense_def example_amounts example_validate_lunch example_tags
          initial_summary_def track_category_def dict_has_def new_category_data_def f Let_def)
       (simp add: expense_of_def field_get_def)
qed

text \<open>
  Claim C2 fails on the code. The loop does isolate the record whose amount does not
  convert: it appends the violation tagged \<^verbatim>\<open>Expense #2\<close>, clears
  \<^verbatim>\<open>ready_for_submission\<close> and keeps the total of the other record. The statistics block
  then converts every amount again outside the inner \<^verbatim>\<open>try\<close>, the same \<^verbatim>\<open>ValueError\<close>
  reaches the outer \<^verbatim>\<open>except\<close>, and the whole summary is replaced by the error result:
  no violation tagged with the position, totals and counts 0, no categories.
\<close>

theorem generate_expense_summary_unparseable_amount:
  "generate_expense_summary example_lib
     [expense_of (PInt 50) ''meals'' ''business lunch'' True,
      expense_of (PStr ''abc'') ''lodging'' ''hotel'' True]
     = error_summary (ValueError (''could not convert string to float: '' @ quoted ''abc''))
   \<and> cs_violations (compliance_status (fst (process_expenses example_lib 0
        [expense_of (PInt 50) ''meals'' ''business lunch'' True,
         expense_of (PStr ''abc'') ''lodging'' ''hotel'' True]
        (initial_summary
           [expense_of (PInt 50) ''meals'' ''business lunch'' True,
            expense_of (PStr ''abc'') ''lodging'' ''hotel'' True], []))))
     = [''Expense #2: Error processing expense - ''
        @ ''could not convert string to float: '' @ quoted ''abc'']
   \<and> cs_violations (compliance_status (generate_expense_summary example_lib
        [expense_of (PInt 50) ''meals'' ''business lunch'' True,
         expense_of (PStr ''abc'') ''lodging'' ''hotel'' True]))
     = [''Error generating summary: ''
        @ ''could not convert string to float: '' @ quoted ''abc'']
   \<and> expense_count (generate_expense_summary example_lib
        [expense_of (PInt 50) ''meals'' ''business lunch'' True,
         expense_of (PStr ''abc'') ''lodging'' ''hotel'' True]) = 0"
proof -
  let ?es = "[expense_of (PInt 50) ''meals'' ''business lunch'' True,
              expense_of (PStr ''abc'') ''lodging'' ''hotel'' True]"
  have a: "amounts_of example_lib ?es
      = Inl (ValueError (''could not convert string to float: '' @ quoted ''abc''))"
    by (simp add: example_amounts)
  have d: "date_range_of example_lib
      (snd (process_expenses example_lib 0 ?es (initial_summary ?es, []))) = Inr None"
    by (simp only: example_loop snd_conv) (simp add: date_range_of_def)
  have n: "0 < expense_count (fst (process_expenses example_lib 0 ?es (initial_summary ?es, [])))"
    by (simp only: example_loop fst_conv) simp
  have "finish_summary example_lib ?es (process_expenses example_lib 0 ?es (initial_summary ?es, []))
      = Inl (ValueError (''could not convert string to float: '' @ quoted ''abc''))"
    using d n a by (rule finish_summary_amount_error)
  then have g: "generate_expense_summary example_lib ?es
      = error_summary (ValueError (''could not convert string to float: '' @ quoted ''abc''))"
    by (simp only: generate_expense_summary_def sum.case)
  show ?thesis
    unfolding g by (simp only: example_loop) (simp add: error_summary_def)
qed

text \<open>
  Claim C6, as the code has it. For a permutation of the records the summary has the
  same \<^verbatim>\<open>ready_for_submission\<close> flag, the same category keys with the same counts and the
  same \<^verbatim>\<open>expense_count\<close>. \<^verbatim>\<open>total_amount\<close> and the totals of the categories are the same
  for both orders when every amount that converts is a whole number and the magnitudes of
  the amounts add up to less than \<open>2 ^ 53\<close> (\<open>whole_amounts\<close>). For other amounts nothing is
  stated about the totals: they are sums of floats accumulated in input order.
\<close>

theorem generate_expense_summary_permutation:
  assumes "mset expenses' = mset expenses"
  shows "ready_for_submission (compliance_status (generate_expense_summary lib expenses'))
           = ready_for_submission (compliance_status (generate_expense_summary lib expenses))
       \<and> (\<forall>c. count_in (categories (generate_expense_summary lib expenses')) c
                = count_in (categories (generate_expense_summary lib expenses)) c)
       \<and> expense_count (generate_expense_summary lib expenses')
           = expense_count (generate_expense_summary lib expenses)
       \<and> (whole_amounts lib expenses \<longrightarrow>
            total_amount (generate_expense_summary lib expenses')
              = total_amount (generate_expense_summary lib expenses)
            \<and> (\<forall>c. total_in (categories (generate_expense_summary lib expenses')) c
                     = total_in (categories (generate_expense_summary lib expenses)) c))"
  using generate_flags_permutation [OF assms, of lib]
    generate_totals_permutation [OF assms, of lib]
  by blast

text \<open>
  The totals do depend on the order. With the amounts 0.1, 0.2 and 0.3 the loop computes
  \<^verbatim>\<open>0.0 + 0.1 + 0.2 + 0.3\<close>, which is \<^verbatim>\<open>0.6000000000000001\<close>, and for the reversed list
  \<^verbatim>\<open>0.0 + 0.3 + 0.2 + 0.1\<close>, which is \<^verbatim>\<open>0.6\<close>; the total of the one category differs in
  the same way.
\<close>

lemma float_sum_order:
  "foldl float_add 0 [round_binary64 (1/10), round_binary64 (2/10), round_binary64 (3/10)]
     \<noteq> foldl float_add 0 [round_binary64 (3/10), round_binary64 (2/10), round_binary64 (1/10)]"
  by code_simp

theorem generate_expense_summary_permutation_counterexample:
  "mset [expense_of (PFloat (round_binary64 (3/10))) ''office'' ''toner'' True,
         expense_of (PFloat (round_binary64 (2/10))) ''office'' ''paper'' True,
         expense_of (PFloat (round_binary64 (1/10))) ''office'' ''pens'' True]
     = mset [expense_of (PFloat (round_binary64 (1/10))) ''office'' ''pens'' True,
             expense_of (PFloat (round_binary64 (2/10))) ''office'' ''paper'' True,
             expense_of (PFloat (round_binary64 (3/10))) ''office'' ''toner'' True]
   \<and> total_amount (generate_expense_summary example_lib
        [expense_of (PFloat (round_binary64 (3/10))) ''office'' ''toner'' True,
         expense_of (PFloat (round_binary64 (2/10))) ''office'' ''paper'' True,
         expense_of (PFloat (round_binary64 (1/10))) ''office'' ''pens'' True])
     \<noteq> total_amount (generate_expense_summary example_lib
        [expense_of (PFloat (round_binary64 (1/10))) ''office'' ''pens'' True,
         expense_of (PFloat (round_binary64 (2/10))) ''office'' ''paper'' True,
         expense_of (PFloat (round_binary64 (3/10))) ''office'' ''toner'' True])
   \<and> total_in (categories (generate_expense_summary example_lib
        [expense_of (PFloat (round_binary64 (3/10))) ''office'' ''toner'' True,
         expense_of (PFloat (round_binary64 (2/10))) ''office'' ''paper'' True,
         expense_of (PFloat (round_binary64 (1/10))) ''office'' ''pens'' True])) ''office''
     \<noteq> total_in (categories (generate_expense_summary example_lib
        [expense_of (PFloat (round_binary64 (1/10))) ''office'' ''pens'' True,
         expense_of (PFloat (round_binary64 (2/10))) ''office'' ''paper'' True,
         expense_of (PFloat (round_binary64 (3/10))) ''office'' ''toner'' True])) ''office''"
proof -
  let ?a = "expense_of (PFloat (round_binary64 (1/10))) ''office'' ''pens'' True"
  let ?b = "expense_of (PFloat (round_binary64 (2/10))) ''office'' ''paper'' True"
  let ?c = "expense_of (PFloat (round_binary64 (3/10))) ''office'' ''toner'' True"
  have conv: "converts example_lib (expense_of (PFloat x) c d r)" for x c d r
    by (simp add: converts_def example_amounts)
  have val: "amount_value example_lib (expense_of (PFloat x) c d r) = x" for x c d r
    by (simp add: amount_value_def example_amounts)
  have cat: "category_of (expense_of a c d r) = c" for a c d r
    by (simp add: category_of_def expense_of_def field_get_def)
  have nodate: "date_key (expense_of a c d r) = None" for a c d r
    by (simp add: expense_of_def)
  have ok1: "\<not> (\<exists>x. finish_summary example_lib [?a, ?b, ?c]
      (process_expenses example_lib 0 [?a, ?b, ?c] (initial_summary [?a, ?b, ?c], [])) = Inl x)"
    by (rule generate_succeeds) (simp add: conv nodate)
  have ok2: "\<not> (\<exists>x. finish_summary example_lib [?c, ?b, ?a]
      (process_expenses example_lib 0 [?c, ?b, ?a] (initial_summary [?c, ?b, ?a], [])) = Inl x)"
    by (rule generate_succeeds) (simp add: conv nodate)
  have m: "mset [?c, ?b, ?a] = mset [?a, ?b, ?c]" by (simp add: add_mset_commute)
  have t: "total_amount (generate_expense_summary example_lib [?c, ?b, ?a])
      \<noteq> total_amount (generate_expense_summary example_lib [?a, ?b, ?c])"
    unfolding generate_totals(1) [OF ok1] generate_totals(1) [OF ok2]
    using float_sum_order by (simp add: converted_amounts_def conv val)
  have c: "total_in (categories (generate_expense_summary example_lib [?c, ?b, ?a])) ''office''
      \<noteq> total_in (categories (generate_expense_summary example_lib [?a, ?b, ?c])) ''office''"
    unfolding generate_totals(2) [OF ok1] generate_totals(2) [OF ok2]
    using float_sum_order by (simp add: converted_amounts_def conv val cat plus_total_def)
  show ?thesis using m t c by (intro conjI)
qed

theorem generate_expense_summary_permutation_witness:
  "ready_for_submission (compliance_status (generate_expense_summary example_lib
        [expense_of (PInt 400) ''lodging'' ''hotel'' True,
         expense_of (PInt 50) ''meals'' ''business lunch'' True]))
     = ready_for_submission (compliance_status (generate_expense_summary example_lib
        [expense_of (PInt 50) ''meals'' ''business lunch'' True,
         expense_of (PInt 400) ''lodging'' ''hotel'' True]))
   \<and> count_in (categories (generate_expense_summary example_lib
        [expense_of (PInt 400) ''lodging'' ''hotel'' True,
         expense_of (PInt 50) ''meals'' ''business lunch'' True])) ''meals''
     = count_in (categories (generate_expense_summary example_lib
        [expense_of (PInt 50) ''meals'' ''business lunch'' True,
         expense_of (PInt 400) ''lodging'' ''hotel'' True])) ''meals''
   \<and> total_amount (generate_expense_summary example_lib
        [expense_of (PInt 400) ''lodging'' ''hotel'' True,
         expense_of (PInt 50) ''meals'' ''business lunch'' True])
     = total_amount (generate_expense_summary example_lib
        [expense_of (PInt 50) ''meals'' ''business lunch'' True,
         expense_of (PInt 400) ''lodging'' ''hotel'' True])"
proof -
  let ?a = "expense_of (PInt 50) ''meals'' ''business lunch'' True"
  let ?b = "expense_of (PInt 400) ''lodging'' ''hotel'' True"
  have m: "mset [?b, ?a] = mset [?a, ?b]" by (simp add: add_mset_commute)
  have w: "whole_amounts example_lib [?a, ?b]"
    by (simp add: whole_amounts_def amount_value_def example_amounts is_whole_def)
  show ?thesis
    using generate_expense_summary_permutation [OF m, of example_lib] w by blast
qed

text \<open>
  Claim C10. For the empty list every total and count is zero, the mappings and lists
  are empty, \<^verbatim>\<open>ready_for_submission\<close> is true, and \<^verbatim>\<open>date_range\<close> and \<^verbatim>\<open>statistics\<close> stay
  the empty dictionaries they start as.
\<close>

theorem generate_expense_summary_empty:
  "generate_expense_summary lib [] =
     \<lparr>total_amount = 0, expense_count = 0, categories = [],
      compliance_status =
        \<lparr>total_violations = 0, cs_violations = [], cs_warnings = [],
         ready_for_submission = True\<rparr>,
      sum_required_documents = [], sum_policy_references = [],
      date_range = None, statistics = None\<rparr>"
  by (simp add: generate_expense_summary_def finish_summary_def initial_summary_def
        date_range_of_def list_set_def)

subsection \<open>The date functions on examples\<close>

text \<open>
  The date functions on examples: 2024-01-06 is a Saturday and 2024-01-08 a Monday; a
  text that is no date is not a weekend; the range from the 8th to the 10th lasts three
  days; two dates that do not parse make the date range raise.
\<close>

lemma example_weekend:
  "is_weekend example_lib ''2024-01-06''"
  "\<not> is_weekend example_lib ''2024-01-08''"
  "\<not> is_weekend example_lib ''next week''"
  by code_simp+

lemma example_date_range:
  "date_range_of example_lib [''2024-01-10'', ''2024-01-08'']
     = Inr (Some \<lparr>start_date = ''2024-01-08'', end_date = ''2024-01-10'', duration_days = 3\<rparr>)"
  "date_range_of example_lib [''soon'', ''later'']
     = Inl (ValueError (''Invalid isoformat string: '' @ quoted ''soon''))"
  by code_simp+

end
